theory Spec2Isabelle
  imports Complex_Main
begin

section \<open>Values of the Python program\<close>

text \<open>
  The request bodies of \<^verbatim>\<open>server.py\<close> are what \<^verbatim>\<open>request.get_json\<close> returns: a parsed
  JSON value. An object is the parsed \<^verbatim>\<open>dict\<close>, an association list in insertion order
  whose keys are distinct. A float is a rational; \<open>JNonFinite\<close> stands for the values
  \<^verbatim>\<open>NaN\<close> and \<^verbatim>\<open>Infinity\<close> that Python's parser lets through. A string is a list of
  characters with code points below 256, a \<open>char\<close> being its code point.
\<close>

datatype json =
    JNull
  | JBool bool
  | JInt int
  | JFloat rat
  | JNonFinite
  | JStr string
  | JArr "json list"
  | JObj "(string \<times> json) list"

text \<open>Python truth value, as \<^verbatim>\<open>not data\<close> and \<^verbatim>\<open>not name\<close> test it.\<close>

fun truthy :: "json \<Rightarrow> bool" where
  "truthy JNull = False"
| "truthy (JBool b) = b"
| "truthy (JInt i) = (i \<noteq> 0)"
| "truthy (JFloat q) = (q \<noteq> 0)"
| "truthy JNonFinite = True"
| "truthy (JStr s) = (s \<noteq> [])"
| "truthy (JArr xs) = (xs \<noteq> [])"
| "truthy (JObj kvs) = (kvs \<noteq> [])"

fun isinstance_str :: "json \<Rightarrow> bool" where
  "isinstance_str (JStr s) = True"
| "isinstance_str _ = False"

subsection \<open>The builtin \<^verbatim>\<open>int()\<close> and \<^verbatim>\<open>str.strip()\<close>\<close>

text \<open>
  \<^verbatim>\<open>s.strip()\<close> drops from both ends the characters for which \<^verbatim>\<open>str.isspace\<close> holds: below
  256 these are the code points 9 to 13, 28 to 32, 133 and 160.
\<close>

definition is_space :: "char \<Rightarrow> bool" where
  "is_space c = ((of_char c :: nat) \<in> {9, 10, 11, 12, 13, 28, 29, 30, 31, 32, 133, 160})"

definition strip :: "string \<Rightarrow> string" where
  "strip s = rev (dropWhile is_space (rev (dropWhile is_space s)))"

text \<open>
  \<^verbatim>\<open>int(s)\<close> on a string (CPython 3.11, default settings) skips white space on both sides,
  which for \<^verbatim>\<open>int\<close> is 9 to 13, 32, 133 and 160 only; it reads an optional sign and then
  decimal digits, where single underscores may stand between digits; a text with more
  than 4300 digits is refused. Any other text raises \<^verbatim>\<open>ValueError\<close>, here \<open>None\<close>.
\<close>

definition int_space :: "char \<Rightarrow> bool" where
  "int_space c = ((of_char c :: nat) \<in> {9, 10, 11, 12, 13, 32, 133, 160})"

definition int_strip :: "string \<Rightarrow> string" where
  "int_strip s = rev (dropWhile int_space (rev (dropWhile int_space s)))"

definition is_digit :: "char \<Rightarrow> bool" where
  "is_digit c = (48 \<le> (of_char c :: nat) \<and> (of_char c :: nat) \<le> 57)"

definition digit_val :: "char \<Rightarrow> int" where
  "digit_val c = int (of_char c - 48)"

fun digits_from :: "int \<Rightarrow> string \<Rightarrow> int option" where
  "digits_from a [] = Some a"
| "digits_from a [c] = (if is_digit c then Some (10 * a + digit_val c) else None)"
| "digits_from a (c # d # ds) =
     (if is_digit c then digits_from (10 * a + digit_val c) (d # ds)
      else if c = CHR ''_'' \<and> is_digit d then digits_from (10 * a + digit_val d) ds
      else None)"

definition digits :: "string \<Rightarrow> int option" where
  "digits s = (case s of [] \<Rightarrow> None
     | c # cs \<Rightarrow> if is_digit c then digits_from (digit_val c) cs else None)"

definition max_str_digits :: nat where
  "max_str_digits = 4300"

definition int_of_str :: "string \<Rightarrow> int option" where
  "int_of_str s =
     (let t = int_strip s
      in if max_str_digits < length (filter is_digit t) then None
         else (case t of [] \<Rightarrow> None
           | c # cs \<Rightarrow>
               if c = CHR ''-'' then map_option uminus (digits cs)
               else if c = CHR ''+'' then digits cs
               else digits (c # cs)))"

text \<open>
  \<^verbatim>\<open>int(v)\<close> on a JSON value: \<^verbatim>\<open>None\<close>, lists and dicts raise \<^verbatim>\<open>TypeError\<close>, a non-finite
  float raises \<^verbatim>\<open>ValueError\<close> or \<^verbatim>\<open>OverflowError\<close>, a float is truncated towards zero, a
  boolean is 0 or 1.
\<close>

fun py_int :: "json \<Rightarrow> int option" where
  "py_int JNull = None"
| "py_int (JBool b) = Some (if b then 1 else 0)"
| "py_int (JInt i) = Some i"
| "py_int (JFloat q) = Some (if 0 \<le> q then \<lfloor>q\<rfloor> else \<lceil>q\<rceil>)"
| "py_int JNonFinite = None"
| "py_int (JStr s) = int_of_str s"
| "py_int (JArr xs) = None"
| "py_int (JObj kvs) = None"

section \<open>The environment: pools, stores and the trace of database calls\<close>

datatype role = Primary | Replica

type_synonym conn = nat

text \<open>
  Modelled from the spec: the connection pool of \<^verbatim>\<open>psycopg2.pool\<close>, which this repository
  only constructs. A pool is a bounded set of reusable connections: \<open>idle\<close> holds the
  handles that \<^verbatim>\<open>getconn\<close> can hand out, \<open>busy\<close> the ones checked out.
\<close>

record pool =
  idle :: "conn list"
  busy :: "conn list"

text \<open>A row of the table \<^verbatim>\<open>products\<close>; the tuple \<^verbatim>\<open>r[0], r[1], r[2], r[3]\<close> of the source.\<close>

record row =
  rid :: int
  rname :: json
  rprice :: int
  rimage :: json

text \<open>
  Modelled from the spec: the database behind a pool, which is not part of the
  repository. It holds the single table keyed by a generated integer id, with
  autocommit off: \<open>table\<close> is the committed table, \<open>txn\<close> the rows as the open
  transaction of the checked-out connection sees them, \<open>seq\<close> the next value of the id
  sequence (a sequence is not rolled back).
\<close>

record store =
  table :: "row list"
  txn :: "row list option"
  seq :: int

datatype stage = OnCursor | OnExecute | OnFetch | OnCommit

text \<open>
  The exceptions that reach \<^verbatim>\<open>run_query\<close>'s callers: the pool has no connection left, or a
  database call raised; the stage records which call, the string is \<^verbatim>\<open>str(e)\<close>.
\<close>

datatype exn = PoolError | DbError stage string

fun str_exn :: "exn \<Rightarrow> string" where
  "str_exn PoolError = ''connection pool exhausted''"
| "str_exn (DbError s m) = m"

text \<open>
  What the environment does to the next call of \<^verbatim>\<open>run_query\<close> that holds a connection:
  nothing, or it makes one of the calls on the connection raise.
\<close>

datatype fault = NoFault | CursorFails string | ExecuteFails string | FetchFails string
  | CommitFails string

datatype event =
    GetConn role conn
  | Execute role conn string "json list"
  | FetchAll role conn
  | Commit role conn
  | PutConn role conn

fun ev_role :: "event \<Rightarrow> role" where
  "ev_role (GetConn r c) = r"
| "ev_role (Execute r c q ps) = r"
| "ev_role (FetchAll r c) = r"
| "ev_role (Commit r c) = r"
| "ev_role (PutConn r c) = r"

fun is_getconn :: "event \<Rightarrow> bool" where
  "is_getconn (GetConn r c) = True"
| "is_getconn _ = False"

fun is_putconn :: "event \<Rightarrow> bool" where
  "is_putconn (PutConn r c) = True"
| "is_putconn _ = False"

fun is_commit :: "event \<Rightarrow> bool" where
  "is_commit (Commit r c) = True"
| "is_commit _ = False"

text \<open>
  The process state: the configured token (\<^verbatim>\<open>ADMIN_TOKEN\<close>), the two pools
  (\<^verbatim>\<open>primary_pool\<close>, \<^verbatim>\<open>replica_pool\<close>) and the database each is connected to, the faults
  to come, and the trace of calls made on pools and connections. Two behaviours of the
  Python runtime are parameters: \<open>compose_ok\<close> says whether the \<^verbatim>\<open>as_string\<close> call of the
  list route returns the statement text or raises, and \<open>set_iter\<close> gives, for the keys of
  a body, the order in which the runtime iterates the set \<^verbatim>\<open>data.keys() & allowed\<close>.
\<close>

record world =
  admin_token :: string
  pools :: "role \<Rightarrow> pool"
  dbs :: "role \<Rightarrow> store"
  faults :: "fault list"
  trace :: "event list"
  compose_ok :: bool
  set_iter :: "string list \<Rightarrow> string list"

section \<open>Statements and their meaning in the store\<close>

text \<open>The three statement texts of \<^verbatim>\<open>server.py\<close>, character by character.\<close>

definition select_text :: string where
  "select_text =
     ''SELECT product_id, product_name, price, product_image_url FROM products ORDER BY product_id LIMIT %s OFFSET %s''"

definition insert_text :: string where
  "insert_text =
     [CHR 0x0A] @ ''        INSERT INTO products (product_name, price, product_image_url)''
     @ [CHR 0x0A] @ ''        VALUES (%s, %s, %s)''
     @ [CHR 0x0A] @ ''        RETURNING product_id, product_name, price, product_image_url;''
     @ [CHR 0x0A] @ ''    ''"

text \<open>\<^verbatim>\<open>sep.join(xs)\<close>\<close>

fun str_join :: "string \<Rightarrow> string list \<Rightarrow> string" where
  "str_join sep [] = []"
| "str_join sep [x] = x"
| "str_join sep (x # y # ys) = x @ sep @ str_join sep (y # ys)"

text \<open>
  \<^verbatim>\<open>set_texts = [f"{col} = %s" for col in updates.keys()]\<close> and the f-string
  \<^verbatim>\<open>final_query\<close> of \<^verbatim>\<open>update_product\<close>.
\<close>

definition set_texts :: "string list \<Rightarrow> string list" where
  "set_texts cols = map (\<lambda>col. col @ '' = %s'') cols"

definition final_query :: "string list \<Rightarrow> string" where
  "final_query cols =
     ''UPDATE products SET '' @ str_join '', '' (set_texts cols)
     @ '' WHERE product_id = %s RETURNING product_id, product_name, price, product_image_url;''"

definition allowed :: "string list" where
  "allowed = [''product_name'', ''price'', ''product_image_url'']"

text \<open>
  Modelled from the spec: what the database does with a statement and its positionally
  bound parameters, on the rows the transaction sees and the id sequence. The result is
  the rows returned, the rows after the statement and the sequence after it. The store
  knows the three shapes of statement the server sends: the page query, the insert, and
  an update of a non-empty choice of distinct columns. Any other text is a syntax error.
  The price is an integer (unbounded) and a price that is none is refused; the name and
  the image are kept as they are bound. A statement that fails for a reason the store
  does not decide (a lost connection, a value the driver cannot adapt, a constraint of
  the schema) is a fault of the environment.
\<close>

definition page :: "int \<Rightarrow> int \<Rightarrow> row list \<Rightarrow> row list" where
  "page lmt ofs rows = take (nat lmt) (drop (nat ofs) (sort_key rid rows))"

fun select_params :: "json list \<Rightarrow> (int \<times> int) option" where
  "select_params [JInt lmt, JInt ofs] = Some (lmt, ofs)"
| "select_params ps = None"

fun insert_params :: "json list \<Rightarrow> (json \<times> int \<times> json) option" where
  "insert_params [n, JInt p, i] = Some (n, p, i)"
| "insert_params ps = None"

fun assign :: "row \<Rightarrow> string \<times> json \<Rightarrow> row" where
  "assign r (col, v) =
     (if col = ''product_name'' then r\<lparr>rname := v\<rparr>
      else if col = ''price'' then (case v of JInt p \<Rightarrow> r\<lparr>rprice := p\<rparr> | _ \<Rightarrow> r)
      else if col = ''product_image_url'' then r\<lparr>rimage := v\<rparr>
      else r)"

fun is_jint :: "json \<Rightarrow> bool" where
  "is_jint (JInt i) = True"
| "is_jint _ = False"

fun well_typed :: "string \<times> json \<Rightarrow> bool" where
  "well_typed (col, v) = (if col = ''price'' then is_jint v else True)"

text \<open>The non-empty choices of distinct columns of the allow-list, in every order.\<close>

definition col_lists :: "string list list" where
  "col_lists =
     [[''product_name''], [''price''], [''product_image_url''],
      [''product_name'', ''price''], [''product_name'', ''product_image_url''],
      [''price'', ''product_name''], [''price'', ''product_image_url''],
      [''product_image_url'', ''product_name''], [''product_image_url'', ''price''],
      [''product_name'', ''price'', ''product_image_url''],
      [''product_name'', ''product_image_url'', ''price''],
      [''price'', ''product_name'', ''product_image_url''],
      [''price'', ''product_image_url'', ''product_name''],
      [''product_image_url'', ''product_name'', ''price''],
      [''product_image_url'', ''price'', ''product_name'']]"

definition update_rows :: "(string \<times> json) list \<Rightarrow> int \<Rightarrow> row list \<Rightarrow> row list" where
  "update_rows sets i rows = map (\<lambda>r. if rid r = i then foldl assign r sets else r) rows"

definition store_exec ::
  "string \<Rightarrow> json list \<Rightarrow> row list \<Rightarrow> int \<Rightarrow> exn + (row list \<times> row list \<times> int)" where
  "store_exec q ps rows sq =
     (if q = select_text then
        (case select_params ps of
           None \<Rightarrow> Inl (DbError OnExecute ''bad parameters'')
         | Some (lmt, ofs) \<Rightarrow>
             if lmt < 0 then Inl (DbError OnExecute ''LIMIT must not be negative'')
             else if ofs < 0 then Inl (DbError OnExecute ''OFFSET must not be negative'')
             else Inr (page lmt ofs rows, rows, sq))
      else if q = insert_text then
        (case insert_params ps of
           None \<Rightarrow> Inl (DbError OnExecute ''bad parameters'')
         | Some (n, p, i) \<Rightarrow>
             let r = \<lparr>rid = sq, rname = n, rprice = p, rimage = i\<rparr>
             in Inr ([r], rows @ [r], sq + 1))
      else
        (case find (\<lambda>cols. final_query cols = q) col_lists of
           None \<Rightarrow> Inl (DbError OnExecute ''syntax error'')
         | Some cols \<Rightarrow>
             if length ps = Suc (length cols)
             then (case last ps of
                 JInt i \<Rightarrow>
                   if list_all well_typed (zip cols (butlast ps))
                   then (let rows' = update_rows (zip cols (butlast ps)) i rows
                         in Inr (filter (\<lambda>r. rid r = i) rows', rows', sq))
                   else Inl (DbError OnExecute ''value not accepted by the column'')
               | _ \<Rightarrow> Inl (DbError OnExecute ''bad parameters''))
             else Inl (DbError OnExecute ''bad parameters'')))"

section \<open>The query executor\<close>

text \<open>
  Modelled from the spec: the two calls of the pool, which is a library object.
  \<^verbatim>\<open>pool.getconn()\<close> raises when the pool has no connection left. \<^verbatim>\<open>pool.putconn(conn)\<close>
  takes the connection back; a transaction still open on it is not committed but rolled
  back.
\<close>

definition getconn :: "role \<Rightarrow> world \<Rightarrow> exn + (conn \<times> world)" where
  "getconn r w =
     (case idle (pools w r) of
        [] \<Rightarrow> Inl PoolError
      | c # cs \<Rightarrow>
          Inr (c, w\<lparr>pools := (pools w)(r := \<lparr>idle = cs, busy = c # busy (pools w r)\<rparr>),
                     trace := trace w @ [GetConn r c]\<rparr>))"

definition putconn :: "role \<Rightarrow> conn \<Rightarrow> world \<Rightarrow> world" where
  "putconn r c w =
     w\<lparr>pools := (pools w)(r := \<lparr>idle = c # idle (pools w r), busy = remove1 c (busy (pools w r))\<rparr>),
       dbs := (dbs w)(r := (dbs w r)\<lparr>txn := None\<rparr>),
       trace := trace w @ [PutConn r c]\<rparr>"

definition next_fault :: "world \<Rightarrow> fault \<times> world" where
  "next_fault w = (case faults w of [] \<Rightarrow> (NoFault, w) | f # fs \<Rightarrow> (f, w\<lparr>faults := fs\<rparr>))"

text \<open>\<^verbatim>\<open>cur.execute(query, params or ())\<close>: the statement runs inside the connection's transaction.\<close>

definition execute ::
  "role \<Rightarrow> conn \<Rightarrow> string \<Rightarrow> json list \<Rightarrow> fault \<Rightarrow> world \<Rightarrow> (exn + row list) \<times> world" where
  "execute r c q ps f w =
     (let w1 = w\<lparr>trace := trace w @ [Execute r c q ps]\<rparr>; d = dbs w r
      in case f of
           ExecuteFails m \<Rightarrow> (Inl (DbError OnExecute m), w1)
         | _ \<Rightarrow>
             (case store_exec q ps (case txn d of None \<Rightarrow> table d | Some t \<Rightarrow> t) (seq d) of
                Inl e \<Rightarrow> (Inl e, w1)
              | Inr (res, rows', sq') \<Rightarrow>
                  (Inr res, w1\<lparr>dbs := (dbs w)(r := d\<lparr>txn := Some rows', seq := sq'\<rparr>)\<rparr>)))"

text \<open>\<^verbatim>\<open>cur.fetchall()\<close>\<close>

definition fetchall ::
  "role \<Rightarrow> conn \<Rightarrow> row list \<Rightarrow> fault \<Rightarrow> world \<Rightarrow> (exn + row list) \<times> world" where
  "fetchall r c rows f w =
     (let w1 = w\<lparr>trace := trace w @ [FetchAll r c]\<rparr>
      in case f of FetchFails m \<Rightarrow> (Inl (DbError OnFetch m), w1) | _ \<Rightarrow> (Inr rows, w1))"

text \<open>\<^verbatim>\<open>conn.commit()\<close>: the rows of the transaction become the table.\<close>

definition commit :: "role \<Rightarrow> conn \<Rightarrow> fault \<Rightarrow> world \<Rightarrow> (exn + unit) \<times> world" where
  "commit r c f w =
     (let w1 = w\<lparr>trace := trace w @ [Commit r c]\<rparr>; d = dbs w r
      in case f of
           CommitFails m \<Rightarrow> (Inl (DbError OnCommit m), w1)
         | _ \<Rightarrow> (Inr (), w1\<lparr>dbs := (dbs w)(r :=
                     d\<lparr>table := (case txn d of None \<Rightarrow> table d | Some t \<Rightarrow> t), txn := None\<rparr>)\<rparr>))"

text \<open>
  The body of the \<^verbatim>\<open>try\<close> block of \<^verbatim>\<open>run_query\<close>. With \<^verbatim>\<open>fetch\<close> the rows are returned
  before the commit is reached; without it the function commits and returns \<^verbatim>\<open>None\<close>.
\<close>

definition try_block ::
  "role \<Rightarrow> conn \<Rightarrow> string \<Rightarrow> json list \<Rightarrow> bool \<Rightarrow> fault \<Rightarrow> world
     \<Rightarrow> (exn + row list option) \<times> world" where
  "try_block r c q ps fetch f w =
     (case f of
        CursorFails m \<Rightarrow> (Inl (DbError OnCursor m), w)
      | _ \<Rightarrow>
          (case execute r c q ps f w of
             (Inl e, w1) \<Rightarrow> (Inl e, w1)
           | (Inr rows, w1) \<Rightarrow>
               if fetch then
                 (case fetchall r c rows f w1 of
                    (Inl e, w2) \<Rightarrow> (Inl e, w2)
                  | (Inr rows', w2) \<Rightarrow> (Inr (Some rows'), w2))
               else
                 (case commit r c f w1 of
                    (Inl e, w2) \<Rightarrow> (Inl e, w2)
                  | (Inr u, w2) \<Rightarrow> (Inr None, w2))))"

text \<open>
  \<^verbatim>\<open>run_query(pool, query, params, fetch)\<close>: \<^verbatim>\<open>getconn\<close> stands before the \<^verbatim>\<open>try\<close>, so its
  exception leaves at once; after it the \<^verbatim>\<open>finally\<close> clause runs \<^verbatim>\<open>putconn\<close> on every path.
\<close>

definition run_query ::
  "role \<Rightarrow> string \<Rightarrow> json list \<Rightarrow> bool \<Rightarrow> world \<Rightarrow> (exn + row list option) \<times> world" where
  "run_query r q ps fetch w =
     (case getconn r w of
        Inl e \<Rightarrow> (Inl e, w)
      | Inr (c, w1) \<Rightarrow>
          (case next_fault w1 of
             (f, w2) \<Rightarrow>
               (case try_block r c q ps fetch f w2 of
                  (res, w3) \<Rightarrow> (res, putconn r c w3))))"

text \<open>The events a call appended to the trace.\<close>

definition new_events :: "world \<Rightarrow> world \<Rightarrow> event list" where
  "new_events w w' = drop (length (trace w)) (trace w')"

section \<open>The authorization gate\<close>

record headers =
  x_admin_token :: "string option"
  authorization :: "string option"

text \<open>A response: status and JSON body. \<open>Crash\<close> is an exception no handler catches.\<close>

datatype reply = Reply nat json | Crash

text \<open>Flask answers an exception that no handler catches with status 500.\<close>

fun status_of :: "reply \<Rightarrow> nat" where
  "status_of (Reply st b) = st"
| "status_of Crash = 500"

definition error_json :: "string \<Rightarrow> json" where
  "error_json msg = JObj [(''error'', JStr msg)]"

definition error_detail :: "string \<Rightarrow> exn \<Rightarrow> json" where
  "error_detail msg e = JObj [(''error'', JStr msg), (''detail'', JStr (str_exn e))]"

definition startswith :: "string \<Rightarrow> string \<Rightarrow> bool" where
  "startswith s p = (take (length p) s = p)"

text \<open>\<^verbatim>\<open>not token\<close> on a header value: absent or empty.\<close>

fun no_token :: "string option \<Rightarrow> bool" where
  "no_token None = True"
| "no_token (Some t) = (t = [])"

text \<open>
  \<^verbatim>\<open>admin_required(f)\<close>: the token comes from \<^verbatim>\<open>X-Admin-Token\<close>, or else from
  \<^verbatim>\<open>Authorization: Bearer\<close>, where \<^verbatim>\<open>auth.split(" ", 1)[1].strip()\<close> is the text after the
  first blank, stripped.
\<close>

definition admin_required ::
  "(world \<Rightarrow> reply \<times> world) \<Rightarrow> headers \<Rightarrow> world \<Rightarrow> reply \<times> world" where
  "admin_required f hs w =
     (let token = x_admin_token hs;
          auth = (case authorization hs of None \<Rightarrow> [] | Some a \<Rightarrow> a);
          token = (if no_token token \<and> startswith auth ''Bearer ''
                   then Some (strip (drop 7 auth)) else token)
      in if no_token token then (Reply 401 (error_json ''unauthorized''), w)
         else if token = Some (admin_token w) then f w
         else (Reply 401 (error_json ''unauthorized''), w))"

section \<open>The route handlers\<close>

definition product_json :: "row \<Rightarrow> json" where
  "product_json r =
     JObj [(''product_id'', JInt (rid r)), (''product_name'', rname r),
           (''price'', JInt (rprice r)), (''product_image_url'', rimage r)]"

text \<open>\<^verbatim>\<open>int(request.args.get(name, default))\<close>\<close>

definition arg_int :: "string option \<Rightarrow> int \<Rightarrow> int option" where
  "arg_int a dflt = (case a of None \<Rightarrow> Some dflt | Some s \<Rightarrow> int_of_str s)"

text \<open>The list comprehension and \<^verbatim>\<open>jsonify\<close> at the end of \<^verbatim>\<open>get_products\<close>.\<close>

definition products_reply :: "row list option \<Rightarrow> reply" where
  "products_reply rows =
     (case rows of None \<Rightarrow> Crash
      | Some rs \<Rightarrow> Reply 200 (JObj [(''products'', JArr (map product_json rs))]))"

text \<open>
  \<^verbatim>\<open>get_products\<close>: the first \<^verbatim>\<open>try\<close> composes the statement and runs it on the replica
  pool; on any exception the second \<^verbatim>\<open>try\<close> runs the same text on the replica pool again.
\<close>

definition get_products :: "string option \<Rightarrow> string option \<Rightarrow> world \<Rightarrow> reply \<times> world" where
  "get_products limit_arg offset_arg w =
     (case arg_int limit_arg 100 of
        None \<Rightarrow> (Reply 400 (error_json ''limit/offset must be integers''), w)
      | Some limit \<Rightarrow>
          (case arg_int offset_arg 0 of
             None \<Rightarrow> (Reply 400 (error_json ''limit/offset must be integers''), w)
           | Some offset \<Rightarrow>
               (case (if compose_ok w
                      then run_query Replica select_text [JInt limit, JInt offset] True w
                      else (Inl (DbError OnCursor ''as_string''), w)) of
                  (Inr rows, w1) \<Rightarrow> (products_reply rows, w1)
                | (Inl e, w1) \<Rightarrow>
                    (case run_query Replica select_text [JInt limit, JInt offset] True w1 of
                       (Inr rows, w2) \<Rightarrow> (products_reply rows, w2)
                     | (Inl ex, w2) \<Rightarrow>
                         (Reply 500 (error_detail ''failed to query replica'' ex), w2)))))"

text \<open>\<^verbatim>\<open>data.get(key)\<close>: \<^verbatim>\<open>None\<close> when the key is missing.\<close>

definition dict_get :: "(string \<times> json) list \<Rightarrow> string \<Rightarrow> json" where
  "dict_get kvs k = (case map_of kvs k of None \<Rightarrow> JNull | Some v \<Rightarrow> v)"

text \<open>
  \<^verbatim>\<open>create_product\<close>. The body is what \<^verbatim>\<open>get_json(force=True, silent=True)\<close> gives, \<open>None\<close>
  when there is no body or it does not parse. A body that is true but no dict has no
  \<^verbatim>\<open>get\<close>: the \<^verbatim>\<open>AttributeError\<close> is not caught.
\<close>

definition create_product :: "json option \<Rightarrow> world \<Rightarrow> reply \<times> world" where
  "create_product body w =
     (case body of
        None \<Rightarrow> (Reply 400 (error_json ''missing json body''), w)
      | Some data \<Rightarrow>
          if \<not> truthy data then (Reply 400 (error_json ''missing json body''), w)
          else (case data of
              JObj kvs \<Rightarrow>
                (let name = dict_get kvs ''product_name'';
                     price = dict_get kvs ''price'';
                     image = dict_get kvs ''product_image_url''
                 in if \<not> (truthy name \<and> isinstance_str name)
                    then (Reply 400 (error_json ''product_name required''), w)
                    else (case py_int price of
                        None \<Rightarrow> (Reply 400 (error_json ''price must be an integer''), w)
                      | Some p \<Rightarrow>
                          (case run_query Primary insert_text [name, JInt p, image] True w of
                             (Inl e, w1) \<Rightarrow> (Reply 500 (error_detail ''failed to insert'' e), w1)
                           | (Inr rows, w1) \<Rightarrow>
                               (case rows of
                                  Some (created # rest) \<Rightarrow>
                                    (Reply 201 (JObj [(''product'', product_json created)]), w1)
                                | _ \<Rightarrow> (Reply 500 (error_json ''insert failed''), w1)))))
            | _ \<Rightarrow> (Crash, w)))"

text \<open>
  The loop of \<^verbatim>\<open>update_product\<close> that fills \<^verbatim>\<open>params\<close>: a price is bound as \<^verbatim>\<open>int(val)\<close>,
  and a price that does not convert ends the request (\<open>None\<close>).
\<close>

fun bind_params :: "(string \<times> json) list \<Rightarrow> json list option" where
  "bind_params [] = Some []"
| "bind_params ((col, val) # rest) =
     (if col = ''price''
      then (case py_int val of
              None \<Rightarrow> None
            | Some p \<Rightarrow> map_option ((#) (JInt p)) (bind_params rest))
      else map_option ((#) val) (bind_params rest))"

text \<open>
  The set \<^verbatim>\<open>data.keys() & allowed\<close>: the keys of the body that are in the allow-list, each
  once.
\<close>

definition keys_and_allowed :: "(string \<times> json) list \<Rightarrow> string list" where
  "keys_and_allowed kvs = remdups (filter (\<lambda>k. k \<in> set allowed) (map fst kvs))"

text \<open>
  Python fixes no order for the iteration over a set. The order the runtime takes for a
  body with the given keys is the parameter \<open>set_iter\<close>; it is read where it is an order of
  exactly the elements of the set.
\<close>

definition updates_keys :: "world \<Rightarrow> (string \<times> json) list \<Rightarrow> string list" where
  "updates_keys w kvs =
     (let ks = keys_and_allowed kvs; order = set_iter w (map fst kvs)
      in if distinct order \<and> set order = set ks then order else ks)"

text \<open>
  \<^verbatim>\<open>update_product\<close>. \<^verbatim>\<open>updates\<close> is the dict built over the set \<^verbatim>\<open>data.keys() & allowed\<close>
  in the order of its iteration; the statement text is built from its keys alone.
\<close>

definition update_product :: "nat \<Rightarrow> json option \<Rightarrow> world \<Rightarrow> reply \<times> world" where
  "update_product product_id body w =
     (case body of
        None \<Rightarrow> (Reply 400 (error_json ''missing json body''), w)
      | Some data \<Rightarrow>
          if \<not> truthy data then (Reply 400 (error_json ''missing json body''), w)
          else (case data of
              JObj kvs \<Rightarrow>
                (let updates = map (\<lambda>k. (k, dict_get kvs k)) (updates_keys w kvs)
                 in if updates = []
                    then (Reply 400 (error_json ''no updatable fields provided''), w)
                    else (case bind_params updates of
                        None \<Rightarrow> (Reply 400 (error_json ''price must be integer''), w)
                      | Some vals \<Rightarrow>
                          (case run_query Primary (final_query (map fst updates))
                                  (vals @ [JInt (int product_id)]) True w of
                             (Inl e, w1) \<Rightarrow> (Reply 500 (error_detail ''failed to update'' e), w1)
                           | (Inr rows, w1) \<Rightarrow>
                               (case rows of
                                  Some (r # rest) \<Rightarrow>
                                    (Reply 200 (JObj [(''product'', product_json r)]), w1)
                                | _ \<Rightarrow> (Reply 404 (error_json ''product not found''), w1)))))
            | _ \<Rightarrow> (Crash, w)))"

definition health :: "world \<Rightarrow> reply \<times> world" where
  "health w = (Reply 200 (JObj [(''status'', JStr ''ok'')]), w)"

text \<open>
  The URL map as the \<^verbatim>\<open>@app.route\<close> lines register it: each rule is bound to the function
  defined under it. No rule is bound to a function wrapped by \<^verbatim>\<open>admin_required\<close>.
\<close>

datatype route = ListProducts | CreateProduct | UpdateProduct nat | Health

record request =
  route :: route
  hdrs :: headers
  limit_arg :: "string option"
  offset_arg :: "string option"
  body :: "json option"

definition dispatch :: "request \<Rightarrow> world \<Rightarrow> reply \<times> world" where
  "dispatch rq w =
     (case route rq of
        ListProducts \<Rightarrow> get_products (limit_arg rq) (offset_arg rq) w
      | CreateProduct \<Rightarrow> create_product (body rq) w
      | UpdateProduct i \<Rightarrow> update_product i (body rq) w
      | Health \<Rightarrow> health w)"

text \<open>The statements of a trace: text and bound parameters of each \<^verbatim>\<open>execute\<close> call.\<close>

fun statements :: "event list \<Rightarrow> (string \<times> json list) list" where
  "statements [] = []"
| "statements (Execute r c q ps # es) = (q, ps) # statements es"
| "statements (e # es) = statements es"

text \<open>A call stays within pool \<open>r\<close>: its events are all on that pool, it runs only the
  statements \<open>sts\<close>, commits nothing, and leaves the pools, the other database and the
  committed table as they were.\<close>

definition confined :: "role \<Rightarrow> (string \<times> json list) set \<Rightarrow> world \<Rightarrow> world \<Rightarrow> bool" where
  "confined r sts w w' =
     (trace w' = trace w @ new_events w w'
      \<and> list_all (\<lambda>e. ev_role e = r) (new_events w w')
      \<and> set (statements (new_events w w')) \<subseteq> sts
      \<and> filter is_commit (new_events w w') = []
      \<and> pools w' = pools w
      \<and> (\<forall>r'. r' \<noteq> r \<longrightarrow> dbs w' r' = dbs w r')
      \<and> table (dbs w' r) = table (dbs w r))"

text \<open>
  The state of a store that has handed out ids from its sequence only: the sequence is
  positive and beyond every id in the table.
\<close>

definition store_ok :: "store \<Rightarrow> bool" where
  "store_ok s = (0 < seq s \<and> list_all (\<lambda>r. 0 < rid r \<and> rid r < seq s) (table s))"

text \<open>The number of \<^verbatim>\<open>%s\<close> placeholders in a statement text.\<close>

fun placeholders :: "string \<Rightarrow> nat" where
  "placeholders [] = 0"
| "placeholders [c] = 0"
| "placeholders (c # d # cs) =
     (if c = CHR ''%'' \<and> d = CHR ''s'' then Suc (placeholders cs) else placeholders (d # cs))"

text \<open>
  Modelled from the spec: replication, which the database does outside the repository.
  The replica takes over what the primary has committed.
\<close>

definition replicate_now :: "world \<Rightarrow> world" where
  "replicate_now w = w\<lparr>dbs := (dbs w)(Replica := (dbs w Replica)\<lparr>table := table (dbs w Primary)\<rparr>)\<rparr>"

section \<open>Sample states\<close>

text \<open>An iteration order for the key set: the order of the allow-list.\<close>

definition canonical_iter :: "string list \<Rightarrow> string list" where
  "canonical_iter ks = filter (\<lambda>k. k \<in> set ks) allowed"

definition pen :: row where
  "pen = \<lparr>rid = 1, rname = JStr ''pen'', rprice = 5, rimage = JNull\<rparr>"

definition shop :: store where
  "shop = \<lparr>table = [pen], txn = None, seq = 2\<rparr>"

definition world0 :: world where
  "world0 = \<lparr>admin_token = ''token'',
             pools = (\<lambda>r. \<lparr>idle = [0], busy = []\<rparr>),
             dbs = (\<lambda>r. shop),
             faults = [], trace = [], compose_ok = True, set_iter = canonical_iter\<rparr>"

definition failing :: world where
  "failing = world0\<lparr>faults := [ExecuteFails ''connection reset'']\<rparr>"

definition ink_body :: "json option" where
  "ink_body = Some (JObj [(''product_name'', JStr ''ink''), (''price'', JStr ''7'')])"

definition price_body :: "json option" where
  "price_body = Some (JObj [(''price'', JInt 7), (''color'', JStr ''red'')])"

definition abc_body :: "json option" where
  "abc_body = Some (JObj [(''product_name'', JStr ''ink''), (''price'', JStr ''abc'')])"

definition colour_body :: "json option" where
  "colour_body = Some (JObj [(''color'', JStr ''red''), (''product_id'', JInt 9)])"

definition nib :: row where
  "nib = \<lparr>rid = 3, rname = JStr ''nib'', rprice = 2, rimage = JStr ''http://img/nib.png''\<rparr>"

definition cap :: row where
  "cap = \<lparr>rid = 2, rname = JStr ''cap'', rprice = 1, rimage = JNull\<rparr>"

definition stock :: store where
  "stock = \<lparr>table = [nib, pen, cap], txn = None, seq = 4\<rparr>"

definition world1 :: world where
  "world1 = world0\<lparr>dbs := (\<lambda>r. stock)\<rparr>"

definition ink :: row where
  "ink = \<lparr>rid = 2, rname = JStr ''ink'', rprice = 7, rimage = JNull\<rparr>"

definition no_headers :: headers where
  "no_headers = \<lparr>x_admin_token = None, authorization = None\<rparr>"

definition post_ink :: request where
  "post_ink = \<lparr>route = CreateProduct, hdrs = no_headers, limit_arg = None, offset_arg = None,
               body = ink_body\<rparr>"

definition new_price :: "json option" where
  "new_price = Some (JObj [(''price'', JInt 7)])"

definition patch_price :: request where
  "patch_price = \<lparr>route = UpdateProduct 1, hdrs = no_headers, limit_arg = None,
                  offset_arg = None, body = new_price\<rparr>"

definition quill_body :: "(string \<times> json) list" where
  "quill_body = [(''price'', JInt 7), (''product_name'', JStr ''quill'')]"

definition hostile_body :: "(string \<times> json) list" where
  "hostile_body = [(''product_name'', JStr ''x = 1; DROP TABLE products''), (''price'', JStr ''9'')]"

definition bad_price_body :: "json option" where
  "bad_price_body = Some (JObj [(''price'', JStr ''abc'')])"

definition drop_body :: "(string \<times> json) list" where
  "drop_body = [(''price'', JStr ''9''), (''product_name'', JStr ''x = 1; DROP TABLE products'')]"

text \<open>A runtime that iterates the key set in the order of the body's keys.\<close>

definition insertion_iter :: "string list \<Rightarrow> string list" where
  "insertion_iter ks = filter (\<lambda>k. k \<in> set allowed) ks"

definition world2 :: world where
  "world2 = world0\<lparr>set_iter := insertion_iter\<rparr>"

section \<open>The query executor returns its connection\<close>

lemma new_events_append: "trace w' = trace w @ es \<Longrightarrow> new_events w w' = es"
  by (simp add: new_events_def)

lemma statements_append: "statements (xs @ ys) = statements xs @ statements ys"
  by (induction xs rule: statements.induct) simp_all

lemma try_block_trace:
  "try_block r c q ps fetch f w = (res, w') \<Longrightarrow>
     \<exists>es. trace w' = trace w @ es \<and> filter is_getconn es = [] \<and> filter is_putconn es = []
       \<and> list_all (\<lambda>e. ev_role e = r) es
       \<and> set (statements es) \<subseteq> {(q, ps)}
       \<and> (fetch \<longrightarrow> filter is_commit es = [])
       \<and> ((\<exists>m. res = Inl (DbError OnExecute m)) \<longrightarrow> filter is_commit es = [])"
  by (auto simp: try_block_def execute_def fetchall_def commit_def Let_def
      split: fault.splits sum.splits prod.splits if_splits)

lemma try_block_state:
  "try_block r c q ps fetch f w = (res, w') \<Longrightarrow>
     pools w' = pools w \<and> faults w' = faults w
     \<and> (\<forall>r'. r' \<noteq> r \<longrightarrow> dbs w' r' = dbs w r')
     \<and> (fetch \<longrightarrow> table (dbs w' r) = table (dbs w r))
     \<and> ((\<exists>m. res = Inl (DbError OnExecute m)) \<longrightarrow> table (dbs w' r) = table (dbs w r))"
  by (auto simp: try_block_def execute_def fetchall_def commit_def Let_def
      split: fault.splits sum.splits prod.splits if_splits)

lemma run_query_exhausted:
  "idle (pools w r) = [] \<Longrightarrow> run_query r q ps fetch w = (Inl PoolError, w)"
  by (simp add: run_query_def getconn_def)

lemma run_query_acquired:
  assumes "run_query r q ps fetch w = (res, w')" and "idle (pools w r) = c # cs"
  shows "\<exists>es. trace w' = trace w @ (GetConn r c # es @ [PutConn r c])
       \<and> filter is_getconn es = [] \<and> filter is_putconn es = []
       \<and> list_all (\<lambda>e. ev_role e = r) es
       \<and> set (statements es) \<subseteq> {(q, ps)}
       \<and> (fetch \<longrightarrow> filter is_commit es = [])
       \<and> ((\<exists>m. res = Inl (DbError OnExecute m)) \<longrightarrow> filter is_commit es = [])"
    and "pools w' = pools w"
    and "\<forall>r'. r' \<noteq> r \<longrightarrow> dbs w' r' = dbs w r'"
    and "fetch \<longrightarrow> table (dbs w' r) = table (dbs w r)"
    and "(\<exists>m. res = Inl (DbError OnExecute m)) \<longrightarrow> table (dbs w' r) = table (dbs w r)"
    and "txn (dbs w' r) = None"
proof -
  define w1 where "w1 = w\<lparr>pools := (pools w)(r := \<lparr>idle = cs, busy = c # busy (pools w r)\<rparr>),
                     trace := trace w @ [GetConn r c]\<rparr>"
  obtain f w2 where nf: "next_fault w1 = (f, w2)" by (cases "next_fault w1")
  obtain res3 w3 where tb: "try_block r c q ps fetch f w2 = (res3, w3)"
    by (cases "try_block r c q ps fetch f w2")
  from assms nf tb have res: "res = res3" and w': "w' = putconn r c w3"
    by (simp_all add: run_query_def getconn_def w1_def)
  from nf have w2: "trace w2 = trace w1" "pools w2 = pools w1" "dbs w2 = dbs w1"
    by (auto simp: next_fault_def split: list.splits)
  from try_block_trace[OF tb] obtain es where
    es: "trace w3 = trace w2 @ es" "filter is_getconn es = []" "filter is_putconn es = []"
        "list_all (\<lambda>e. ev_role e = r) es" "set (statements es) \<subseteq> {(q, ps)}"
        "fetch \<longrightarrow> filter is_commit es = []"
        "(\<exists>m. res3 = Inl (DbError OnExecute m)) \<longrightarrow> filter is_commit es = []"
    by blast
  note st = try_block_state[OF tb]
  have tr: "trace w' = trace w @ (GetConn r c # es @ [PutConn r c])"
    by (simp add: w' putconn_def es w2 w1_def)
  with es res show "\<exists>es. trace w' = trace w @ (GetConn r c # es @ [PutConn r c])
       \<and> filter is_getconn es = [] \<and> filter is_putconn es = []
       \<and> list_all (\<lambda>e. ev_role e = r) es
       \<and> set (statements es) \<subseteq> {(q, ps)}
       \<and> (fetch \<longrightarrow> filter is_commit es = [])
       \<and> ((\<exists>m. res = Inl (DbError OnExecute m)) \<longrightarrow> filter is_commit es = [])"
    by blast
  show "pools w' = pools w"
    using st by (intro ext) (simp add: w' putconn_def w2 w1_def assms(2))
  show "\<forall>r'. r' \<noteq> r \<longrightarrow> dbs w' r' = dbs w r'"
    using st by (simp add: w' putconn_def w2 w1_def)
  show "fetch \<longrightarrow> table (dbs w' r) = table (dbs w r)"
    using st by (simp add: w' putconn_def w2 w1_def)
  show "(\<exists>m. res = Inl (DbError OnExecute m)) \<longrightarrow> table (dbs w' r) = table (dbs w r)"
    using st res by (simp add: w' putconn_def w2 w1_def)
  show "txn (dbs w' r) = None" by (simp add: w' putconn_def)
qed

text \<open>
  Claim C3. Every call of \<^verbatim>\<open>run_query\<close> that acquired a connection gives it back to the
  pool it came from exactly once, on every exit path: the events of the call start with the
  \<^verbatim>\<open>getconn\<close> and end with the one \<^verbatim>\<open>putconn\<close> of the same connection on the same pool, and
  the pool is as before. When the pool has no connection, nothing was acquired and the
  state is untouched. When the statement's execution raises, no commit is made and the
  committed table is unchanged.
\<close>

theorem run_query_releases_once:
  assumes "run_query r q ps fetch w = (res, w')"
  shows "(idle (pools w r) = [] \<longrightarrow> res = Inl PoolError \<and> w' = w)
       \<and> (\<forall>c cs. idle (pools w r) = c # cs \<longrightarrow>
            trace w' = trace w @ new_events w w'
          \<and> hd (new_events w w') = GetConn r c
          \<and> last (new_events w w') = PutConn r c
          \<and> filter is_getconn (new_events w w') = [GetConn r c]
          \<and> filter is_putconn (new_events w w') = [PutConn r c]
          \<and> pools w' = pools w
          \<and> ((\<exists>m. res = Inl (DbError OnExecute m)) \<longrightarrow>
                filter is_commit (new_events w w') = [] \<and> table (dbs w' r) = table (dbs w r)))"
proof (cases "idle (pools w r)")
  case Nil
  with assms show ?thesis by (simp add: run_query_exhausted)
next
  case (Cons c cs)
  from run_query_acquired(1)[OF assms Cons] obtain es where
    es: "trace w' = trace w @ (GetConn r c # es @ [PutConn r c])"
        "filter is_getconn es = []" "filter is_putconn es = []"
        "(\<exists>m. res = Inl (DbError OnExecute m)) \<longrightarrow> filter is_commit es = []"
    by blast
  have ne: "new_events w w' = GetConn r c # es @ [PutConn r c]"
    by (rule new_events_append[OF es(1)])
  show ?thesis
    using Cons es run_query_acquired(2,5)[OF assms Cons] by (simp add: ne)
qed

theorem run_query_releases_once_witness:
  "idle (pools failing Primary) = [0]
   \<and> fst (run_query Primary insert_text [JStr ''ink'', JInt 7, JNull] False failing)
       = Inl (DbError OnExecute ''connection reset'')
   \<and> filter is_putconn (new_events failing
        (snd (run_query Primary insert_text [JStr ''ink'', JInt 7, JNull] False failing)))
       = [PutConn Primary 0]
   \<and> filter is_commit (new_events failing
        (snd (run_query Primary insert_text [JStr ''ink'', JInt 7, JNull] False failing))) = []
   \<and> pools (snd (run_query Primary insert_text [JStr ''ink'', JInt 7, JNull] False failing)) Primary
       = pools failing Primary"
  using run_query_releases_once[of Primary insert_text "[JStr ''ink'', JInt 7, JNull]" False failing
      "fst (run_query Primary insert_text [JStr ''ink'', JInt 7, JNull] False failing)"
      "snd (run_query Primary insert_text [JStr ''ink'', JInt 7, JNull] False failing)"]
  by (simp add: failing_def world0_def run_query_def getconn_def next_fault_def try_block_def
      execute_def putconn_def Let_def new_events_def)


section \<open>Each route stays on its pool\<close>

lemma run_query_frame:
  assumes "run_query r q ps fetch w = (res, w')"
  shows "\<exists>es. trace w' = trace w @ es
       \<and> list_all (\<lambda>e. ev_role e = r) es
       \<and> set (statements es) \<subseteq> {(q, ps)}
       \<and> (fetch \<longrightarrow> filter is_commit es = [])"
    and "pools w' = pools w"
    and "\<forall>r'. r' \<noteq> r \<longrightarrow> dbs w' r' = dbs w r'"
    and "fetch \<longrightarrow> table (dbs w' r) = table (dbs w r)"
proof -
  have "(\<exists>es. trace w' = trace w @ es
       \<and> list_all (\<lambda>e. ev_role e = r) es
       \<and> set (statements es) \<subseteq> {(q, ps)}
       \<and> (fetch \<longrightarrow> filter is_commit es = []))
     \<and> pools w' = pools w
     \<and> (\<forall>r'. r' \<noteq> r \<longrightarrow> dbs w' r' = dbs w r')
     \<and> (fetch \<longrightarrow> table (dbs w' r) = table (dbs w r))"
  proof (cases "idle (pools w r)")
    case Nil
    with assms have "w' = w" by (simp add: run_query_exhausted)
    then show ?thesis by simp
  next
    case (Cons c cs)
    from run_query_acquired(1)[OF assms Cons] obtain es where
      es: "trace w' = trace w @ (GetConn r c # es @ [PutConn r c])"
          "list_all (\<lambda>e. ev_role e = r) es" "set (statements es) \<subseteq> {(q, ps)}"
          "fetch \<longrightarrow> filter is_commit es = []"
      by blast
    have "list_all (\<lambda>e. ev_role e = r) (GetConn r c # es @ [PutConn r c])"
      using es(2) by simp
    moreover have "set (statements (GetConn r c # es @ [PutConn r c])) \<subseteq> {(q, ps)}"
      using es(3) by (simp add: statements_append)
    moreover have "fetch \<longrightarrow> filter is_commit (GetConn r c # es @ [PutConn r c]) = []"
      using es(4) by simp
    ultimately have "\<exists>es. trace w' = trace w @ es
       \<and> list_all (\<lambda>e. ev_role e = r) es
       \<and> set (statements es) \<subseteq> {(q, ps)}
       \<and> (fetch \<longrightarrow> filter is_commit es = [])"
      using es(1) by blast
    then show ?thesis
      using run_query_acquired(2,3,4)[OF assms Cons] by blast
  qed
  then show "\<exists>es. trace w' = trace w @ es
       \<and> list_all (\<lambda>e. ev_role e = r) es
       \<and> set (statements es) \<subseteq> {(q, ps)}
       \<and> (fetch \<longrightarrow> filter is_commit es = [])"
    and "pools w' = pools w"
    and "\<forall>r'. r' \<noteq> r \<longrightarrow> dbs w' r' = dbs w r'"
    and "fetch \<longrightarrow> table (dbs w' r) = table (dbs w r)"
    by blast+
qed

lemma confined_refl: "confined r sts w w"
  by (simp add: confined_def new_events_def)

lemma confined_run_query:
  "run_query r q ps True w = (res, w') \<Longrightarrow> confined r {(q, ps)} w w'"
  using run_query_frame[of r q ps True w res w']
  by (auto simp: confined_def new_events_def)

lemma confined_trans:
  assumes "confined r sts w w1" and "confined r sts w1 w2"
  shows "confined r sts w w2"
proof -
  obtain es1 where 1: "trace w1 = trace w @ es1" "new_events w w1 = es1"
    using assms(1) by (simp add: confined_def)
  obtain es2 where 2: "trace w2 = trace w1 @ es2" "new_events w1 w2 = es2"
    using assms(2) by (simp add: confined_def)
  have ne: "new_events w w2 = es1 @ es2"
    by (rule new_events_append) (simp add: 1 2)
  show ?thesis
    using assms 1 2 by (simp add: confined_def ne statements_append)
qed

lemma get_products_confined:
  assumes "get_products la oa w = (rep, w')"
  shows "\<exists>l off. confined Replica {(select_text, [JInt l, JInt off])} w w'"
proof (cases "arg_int la 100")
  case None
  with assms have "w' = w" by (simp add: get_products_def)
  then show ?thesis by (simp add: confined_refl)
next
  case (Some l)
  note l = Some
  show ?thesis
  proof (cases "arg_int oa 0")
    case None
    with assms l have "w' = w" by (simp add: get_products_def)
    then show ?thesis by (simp add: confined_refl)
  next
    case (Some off)
    let ?ps = "[JInt l, JInt off]"
    let ?S = "{(select_text, ?ps)}"
    obtain r1 w1 where first:
      "(if compose_ok w then run_query Replica select_text ?ps True w
        else (Inl (DbError OnCursor ''as_string''), w)) = (r1, w1)"
      by (cases "if compose_ok w then run_query Replica select_text ?ps True w
        else (Inl (DbError OnCursor ''as_string''), w)")
    have c1: "confined Replica ?S w w1"
      using first by (auto split: if_splits intro: confined_run_query confined_refl)
    show ?thesis
    proof (cases r1)
      case (Inr rows)
      with assms l Some first have "w' = w1" by (simp add: get_products_def)
      with c1 show ?thesis by blast
    next
      case (Inl e)
      obtain r2 w2 where second: "run_query Replica select_text ?ps True w1 = (r2, w2)"
        by (cases "run_query Replica select_text ?ps True w1")
      from assms l Some first Inl second have "w' = w2"
        by (auto simp: get_products_def split: sum.splits)
      with confined_trans[OF c1 confined_run_query[OF second]] show ?thesis by blast
    qed
  qed
qed

lemma create_product_confined:
  assumes "create_product b w = (rep, w')"
  shows "\<exists>ps. confined Primary {(insert_text, ps)} w w'"
  using assms
  by (auto simp: create_product_def Let_def confined_refl
      split: option.splits if_splits json.splits prod.splits sum.splits list.splits
      dest: confined_run_query)

lemma update_product_confined:
  assumes "update_product i b w = (rep, w')"
  shows "\<exists>q ps. confined Primary {(q, ps)} w w'"
  using assms
  by (auto simp: update_product_def Let_def confined_refl
      split: option.splits if_splits json.splits prod.splits sum.splits list.splits
      dest: confined_run_query)

lemmas eval_defs = world0_def canonical_iter_def allowed_def dict_get_def
     run_query_def getconn_def next_fault_def try_block_def execute_def fetchall_def putconn_def
     store_exec_def select_text_def insert_text_def final_query_def set_texts_def col_lists_def
     update_rows_def shop_def pen_def product_json_def Let_def new_events_def arg_int_def
     page_def products_reply_def error_json_def error_detail_def
     keys_and_allowed_def updates_keys_def

lemmas int_defs = int_of_str_def int_strip_def int_space_def max_str_digits_def digits_def
  is_digit_def digit_val_def

lemma list_trace: "new_events world0 (snd (get_products None None world0))
       = [GetConn Replica 0, Execute Replica 0 select_text [JInt 100, JInt 0],
          FetchAll Replica 0, PutConn Replica 0]"
  by (simp add: get_products_def eval_defs)

lemma create_trace: "new_events world0 (snd (create_product ink_body world0))
       = [GetConn Primary 0, Execute Primary 0 insert_text [JStr ''ink'', JInt 7, JNull],
          FetchAll Primary 0, PutConn Primary 0]"
  by (simp add: create_product_def ink_body_def eval_defs int_defs)

lemma update_trace: "new_events world0 (snd (update_product 1 price_body world0))
       = [GetConn Primary 0, Execute Primary 0 (final_query [''price'']) [JInt 7, JInt 1],
          FetchAll Primary 0, PutConn Primary 0]"
  by (simp add: update_product_def price_body_def eval_defs)

text \<open>
  Claim C1. The list route talks to the replica pool only, the create and the update route
  to the primary pool only: every event a handler adds to the trace is an event on its
  pool, and the pool and the database of the other role are left as they were. No read
  reaches the primary pool and no write reaches the replica pool.
\<close>

theorem routes_bound_to_their_pool:
  "(get_products la oa w1 = (rep1, w1') \<longrightarrow>
      trace w1' = trace w1 @ new_events w1 w1'
      \<and> list_all (\<lambda>e. ev_role e = Replica) (new_events w1 w1')
      \<and> pools w1' Primary = pools w1 Primary \<and> dbs w1' Primary = dbs w1 Primary)
   \<and> (create_product b2 w2 = (rep2, w2') \<longrightarrow>
      trace w2' = trace w2 @ new_events w2 w2'
      \<and> list_all (\<lambda>e. ev_role e = Primary) (new_events w2 w2')
      \<and> pools w2' Replica = pools w2 Replica \<and> dbs w2' Replica = dbs w2 Replica)
   \<and> (update_product i b3 w3 = (rep3, w3') \<longrightarrow>
      trace w3' = trace w3 @ new_events w3 w3'
      \<and> list_all (\<lambda>e. ev_role e = Primary) (new_events w3 w3')
      \<and> pools w3' Replica = pools w3 Replica \<and> dbs w3' Replica = dbs w3 Replica)"
proof (intro conjI impI)
  assume "get_products la oa w1 = (rep1, w1')"
  from get_products_confined[OF this] obtain l off where
    "confined Replica {(select_text, [JInt l, JInt off])} w1 w1'" by blast
  then show "trace w1' = trace w1 @ new_events w1 w1'"
    "list_all (\<lambda>e. ev_role e = Replica) (new_events w1 w1')"
    "pools w1' Primary = pools w1 Primary" "dbs w1' Primary = dbs w1 Primary"
    by (simp_all add: confined_def)
next
  assume "create_product b2 w2 = (rep2, w2')"
  from create_product_confined[OF this] obtain ps where
    "confined Primary {(insert_text, ps)} w2 w2'" by blast
  then show "trace w2' = trace w2 @ new_events w2 w2'"
    "list_all (\<lambda>e. ev_role e = Primary) (new_events w2 w2')"
    "pools w2' Replica = pools w2 Replica" "dbs w2' Replica = dbs w2 Replica"
    by (simp_all add: confined_def)
next
  assume "update_product i b3 w3 = (rep3, w3')"
  from update_product_confined[OF this] obtain q ps where
    "confined Primary {(q, ps)} w3 w3'" by blast
  then show "trace w3' = trace w3 @ new_events w3 w3'"
    "list_all (\<lambda>e. ev_role e = Primary) (new_events w3 w3')"
    "pools w3' Replica = pools w3 Replica" "dbs w3' Replica = dbs w3 Replica"
    by (simp_all add: confined_def)
qed

theorem routes_bound_to_their_pool_witness:
  "new_events world0 (snd (get_products None None world0))
       = [GetConn Replica 0, Execute Replica 0 select_text [JInt 100, JInt 0],
          FetchAll Replica 0, PutConn Replica 0]
   \<and> list_all (\<lambda>e. ev_role e = Replica) (new_events world0 (snd (get_products None None world0)))
   \<and> dbs (snd (get_products None None world0)) Primary = dbs world0 Primary
   \<and> new_events world0 (snd (create_product ink_body world0))
       = [GetConn Primary 0, Execute Primary 0 insert_text [JStr ''ink'', JInt 7, JNull],
          FetchAll Primary 0, PutConn Primary 0]
   \<and> list_all (\<lambda>e. ev_role e = Primary) (new_events world0 (snd (create_product ink_body world0)))
   \<and> dbs (snd (create_product ink_body world0)) Replica = dbs world0 Replica
   \<and> new_events world0 (snd (update_product 1 price_body world0))
       = [GetConn Primary 0, Execute Primary 0 (final_query [''price'']) [JInt 7, JInt 1],
          FetchAll Primary 0, PutConn Primary 0]
   \<and> list_all (\<lambda>e. ev_role e = Primary) (new_events world0 (snd (update_product 1 price_body world0)))
   \<and> dbs (snd (update_product 1 price_body world0)) Replica = dbs world0 Replica"
proof -
  have 1: "get_products None None world0
      = (fst (get_products None None world0), snd (get_products None None world0))"
    and 2: "create_product ink_body world0
      = (fst (create_product ink_body world0), snd (create_product ink_body world0))"
    and 3: "update_product 1 price_body world0
      = (fst (update_product 1 price_body world0), snd (update_product 1 price_body world0))"
    by (rule surjective_pairing)+
  from routes_bound_to_their_pool[of None None world0
      "fst (get_products None None world0)" "snd (get_products None None world0)"
      ink_body world0
      "fst (create_product ink_body world0)" "snd (create_product ink_body world0)"
      1 price_body world0
      "fst (update_product 1 price_body world0)" "snd (update_product 1 price_body world0)"]
    1 2 3
  show ?thesis
    by (intro conjI list_trace create_trace update_trace) blast+
qed

section \<open>Validation comes before the database\<close>

text \<open>
  A create request with no JSON body (or an empty one), or with an object whose product
  name is missing, empty or not a string, or whose price \<^verbatim>\<open>int()\<close> rejects, is answered
  with status 400 and leaves the state as it was.
\<close>

lemma create_product_rejects:
  assumes "b = None \<or> (\<exists>d. b = Some d \<and> \<not> truthy d)
     \<or> (\<exists>kvs. b = Some (JObj kvs)
          \<and> (map_of kvs ''product_name'' = None
             \<or> map_of kvs ''product_name'' = Some (JStr [])
             \<or> (\<exists>v. map_of kvs ''product_name'' = Some v \<and> \<not> isinstance_str v)
             \<or> py_int (dict_get kvs ''price'') = None))"
  shows "\<exists>msg. create_product b w = (Reply 400 (error_json msg), w)"
proof (cases b)
  case None
  then show ?thesis by (auto simp: create_product_def)
next
  case (Some d)
  show ?thesis
  proof (cases "truthy d")
    case False
    with Some show ?thesis by (auto simp: create_product_def)
  next
    case True
    with Some assms obtain kvs where d: "d = JObj kvs"
      and bad: "map_of kvs ''product_name'' = None
             \<or> map_of kvs ''product_name'' = Some (JStr [])
             \<or> (\<exists>v. map_of kvs ''product_name'' = Some v \<and> \<not> isinstance_str v)
             \<or> py_int (dict_get kvs ''price'') = None"
      by auto
    have "\<not> (truthy (dict_get kvs ''product_name'') \<and> isinstance_str (dict_get kvs ''product_name''))
          \<or> py_int (dict_get kvs ''price'') = None"
      using bad by (auto simp: dict_get_def)
    then show ?thesis
      using Some True d by (auto simp: create_product_def Let_def)
  qed
qed

text \<open>
  A body that is true in Python but no dict has neither \<^verbatim>\<open>get\<close> nor \<^verbatim>\<open>keys\<close>: both
  mutating handlers raise before any database call, and the exception is not caught.
\<close>

lemma create_product_not_object:
  assumes "truthy d" and "\<forall>kvs. d \<noteq> JObj kvs"
  shows "create_product (Some d) w = (Crash, w)"
  using assms by (cases d) (simp_all add: create_product_def)

lemma update_product_not_object:
  assumes "truthy d" and "\<forall>kvs. d \<noteq> JObj kvs"
  shows "update_product i (Some d) w = (Crash, w)"
  using assms by (cases d) (simp_all add: update_product_def)

text \<open>
  Claim C9 against the code. A create request whose body is a JSON list, string or
  boolean has no product name, and the handler's own checks answer a bad payload with
  400; but \<^verbatim>\<open>data.get\<close> raises on such a body and nothing catches it, so the answer is
  500. A price of \<^verbatim>\<open>"abc"\<close> in an object is answered with 400 and the state is untouched.
\<close>

theorem create_crashes_on_non_object:
  "create_product (Some (JArr [JInt 1])) world0 = (Crash, world0)
   \<and> status_of (fst (create_product (Some (JArr [JInt 1])) world0)) = 500
   \<and> status_of (fst (create_product (Some (JStr ''abc'')) world0)) = 500
   \<and> status_of (fst (create_product (Some (JBool True)) world0)) = 500
   \<and> status_of (fst (create_product abc_body world0)) = 400
   \<and> snd (create_product abc_body world0) = world0"
  by (simp add: create_product_def abc_body_def dict_get_def int_defs)

lemma updates_keys_none:
  assumes "set (map fst kvs) \<inter> set allowed = {}"
  shows "updates_keys w kvs = []"
proof -
  have "keys_and_allowed kvs = []"
    using assms by (auto simp: keys_and_allowed_def filter_empty_conv)
  then show ?thesis by (simp add: updates_keys_def Let_def)
qed

text \<open>
  Claim C6. An update whose body is an object with no key of the allow-list is answered
  with status 400 and leaves the state as it was: no row is touched.
\<close>

theorem update_unknown_keys_only:
  assumes "set (map fst kvs) \<inter> set allowed = {}"
  shows "\<exists>msg. update_product i (Some (JObj kvs)) w = (Reply 400 (error_json msg), w)"
  using updates_keys_none[OF assms, of w]
  by (auto simp: update_product_def Let_def)

theorem update_unknown_keys_only_witness:
  "set (map fst [(''color'', JStr ''red''), (''product_id'', JInt 9)]) \<inter> set allowed = {}
   \<and> update_product 1 colour_body world0
        = (Reply 400 (error_json ''no updatable fields provided''), world0)"
proof -
  have 1: "set (map fst [(''color'', JStr ''red''), (''product_id'', JInt 9)]) \<inter> set allowed = {}"
    by (simp add: allowed_def)
  from update_unknown_keys_only[OF 1, of 1 world0] 1 show ?thesis
    by (auto simp: colour_body_def update_product_def updates_keys_none Let_def)
qed

section \<open>The list route\<close>

lemma run_query_fetch_result:
  assumes "run_query r q ps True w = (Inr rows, w')" and "txn (dbs w r) = None"
  shows "\<exists>rs rows' sq'. store_exec q ps (table (dbs w r)) (seq (dbs w r)) = Inr (rs, rows', sq')
           \<and> rows = Some rs \<and> seq (dbs w' r) = sq'"
  using assms
  by (auto simp: run_query_def getconn_def next_fault_def try_block_def execute_def fetchall_def
      putconn_def Let_def split: list.splits fault.splits sum.splits prod.splits if_splits)

lemma run_query_fetch_ok:
  assumes "idle (pools w r) \<noteq> []" and "faults w = []" and "txn (dbs w r) = None"
    and "store_exec q ps (table (dbs w r)) (seq (dbs w r)) = Inr (rs, rows', sq')"
  shows "fst (run_query r q ps True w) = Inr (Some rs)"
    and "seq (dbs (snd (run_query r q ps True w)) r) = sq'"
    and "faults (snd (run_query r q ps True w)) = []"
  using assms
  by (auto simp: run_query_def getconn_def next_fault_def try_block_def execute_def fetchall_def
      putconn_def Let_def split: list.splits)

lemma run_query_txn:
  assumes "run_query r q ps fetch w = (res, w')" and "txn (dbs w r) = None"
  shows "txn (dbs w' r) = None"
proof (cases "idle (pools w r)")
  case Nil
  with assms show ?thesis by (simp add: run_query_exhausted)
next
  case (Cons c cs)
  from run_query_acquired(6)[OF assms(1) Cons] show ?thesis .
qed

lemma store_exec_select:
  "store_exec select_text [JInt l, JInt off] rows sq =
     (if l < 0 then Inl (DbError OnExecute ''LIMIT must not be negative'')
      else if off < 0 then Inl (DbError OnExecute ''OFFSET must not be negative'')
      else Inr (page l off rows, rows, sq))"
  by (simp add: store_exec_def)

lemma sorted_page: "sorted (map rid (page l off rows))"
  by (simp add: page_def take_map[symmetric] drop_map[symmetric])

lemma get_products_bad_args:
  "arg_int la 100 = None \<or> arg_int oa 0 = None \<Longrightarrow>
     get_products la oa w = (Reply 400 (error_json ''limit/offset must be integers''), w)"
  by (auto simp: get_products_def split: option.splits)

lemma get_products_200:
  assumes "get_products la oa w = (Reply 200 b, w')" and "txn (dbs w Replica) = None"
  shows "\<exists>l off. arg_int la 100 = Some l \<and> arg_int oa 0 = Some off \<and> 0 \<le> l \<and> 0 \<le> off
     \<and> b = JObj [(''products'', JArr (map product_json (page l off (table (dbs w Replica)))))]"
proof -
  from assms(1) obtain l off where l: "arg_int la 100 = Some l" and off: "arg_int oa 0 = Some off"
    by (auto simp: get_products_def split: option.splits)
  let ?ps = "[JInt l, JInt off]"
  have sel: "rows = Some (page l off (table (dbs v Replica))) \<and> 0 \<le> l \<and> 0 \<le> off"
    if "run_query Replica select_text ?ps True v = (Inr rows, v')" "txn (dbs v Replica) = None"
    for v v' rows
    using run_query_fetch_result[OF that] by (auto simp: store_exec_select split: if_splits)
  obtain r1 w1 where first:
    "(if compose_ok w then run_query Replica select_text ?ps True w
      else (Inl (DbError OnCursor ''as_string''), w)) = (r1, w1)"
    by (cases "if compose_ok w then run_query Replica select_text ?ps True w
      else (Inl (DbError OnCursor ''as_string''), w)")
  have w1: "txn (dbs w1 Replica) = None" "table (dbs w1 Replica) = table (dbs w Replica)"
    using first assms(2) run_query_txn[of Replica select_text ?ps True w r1 w1]
      run_query_frame(4)[of Replica select_text ?ps True w r1 w1]
    by (auto split: if_splits)
  show ?thesis
  proof (cases r1)
    case (Inr rows)
    with first have rq: "run_query Replica select_text ?ps True w = (Inr rows, w1)"
      by (auto split: if_splits)
    from assms(1) l off first Inr have "products_reply rows = Reply 200 b"
      by (simp add: get_products_def)
    with sel[OF rq assms(2)] l off show ?thesis by (simp add: products_reply_def)
  next
    case (Inl e)
    obtain r2 w2 where second: "run_query Replica select_text ?ps True w1 = (r2, w2)"
      by (cases "run_query Replica select_text ?ps True w1")
    from assms(1) l off first Inl second obtain rows where r2: "r2 = Inr rows"
      and rep: "products_reply rows = Reply 200 b"
      by (auto simp: get_products_def split: sum.splits)
    from sel[OF second[unfolded r2] w1(1)] rep l off w1(2) show ?thesis
      by (simp add: products_reply_def)
  qed
qed

lemma get_products_ok:
  assumes "arg_int la 100 = Some l" and "arg_int oa 0 = Some off" and "0 \<le> l" and "0 \<le> off"
    and "idle (pools w Replica) \<noteq> []" and "faults w = []" and "txn (dbs w Replica) = None"
  shows "fst (get_products la oa w)
     = Reply 200 (JObj [(''products'', JArr (map product_json (page l off (table (dbs w Replica)))))])"
proof -
  have se: "store_exec select_text [JInt l, JInt off] (table (dbs w Replica)) (seq (dbs w Replica))
      = Inr (page l off (table (dbs w Replica)), table (dbs w Replica), seq (dbs w Replica))"
    using assms(3,4) by (simp add: store_exec_select)
  have rq: "fst (run_query Replica select_text [JInt l, JInt off] True w)
      = Inr (Some (page l off (table (dbs w Replica))))"
    by (rule run_query_fetch_ok(1)[OF assms(5,6,7) se])
  show ?thesis
    using assms(1,2) rq
    by (cases "run_query Replica select_text [JInt l, JInt off] True w")
       (simp add: get_products_def products_reply_def)
qed

section \<open>The store recognises the update statement\<close>

lemma short_distinct:
  assumes "distinct xs" and "set xs \<subseteq> {a, b, c}"
  shows "length xs \<le> 3"
proof -
  have "card (set xs) \<le> card {a, b, c}" using assms(2) by (intro card_mono) auto
  also have "\<dots> \<le> 3" by (simp add: card_insert_if)
  finally show ?thesis using assms(1) by (simp add: distinct_card)
qed

lemma choices_of_three:
  assumes "xs \<noteq> []" and "distinct xs" and "set xs \<subseteq> {a, b, c}"
  shows "xs \<in> {[a], [b], [c], [a, b], [a, c], [b, a], [b, c], [c, a], [c, b],
               [a, b, c], [a, c, b], [b, a, c], [b, c, a], [c, a, b], [c, b, a]}"
proof -
  from short_distinct[OF assms(2,3)] have len: "length xs \<le> 3" .
  show ?thesis
  proof (cases xs)
    case Nil
    with assms(1) show ?thesis by simp
  next
    case (Cons x ys)
    note xs = Cons
    show ?thesis
    proof (cases ys)
      case Nil
      with xs assms(3) show ?thesis by auto
    next
      case (Cons y zs)
      note ys = Cons
      show ?thesis
      proof (cases zs)
        case Nil
        with xs ys assms(2,3) show ?thesis by auto
      next
        case (Cons z us)
        with xs ys len have "us = []" by simp
        with Cons xs ys assms(2,3) show ?thesis by auto
      qed
    qed
  qed
qed

lemma col_lists_member:
  assumes "cols \<noteq> []" and "distinct cols" and "set cols \<subseteq> set allowed"
  shows "cols \<in> set col_lists"
  using choices_of_three[of cols "''product_name''" "''price''" "''product_image_url''"] assms
  unfolding allowed_def col_lists_def by simp

lemma find_all_final_query:
  "list_all (\<lambda>cols. find (\<lambda>cs. final_query cs = final_query cols) col_lists = Some cols) col_lists"
  by (simp add: col_lists_def final_query_def set_texts_def)

lemma find_final_query:
  "cols \<in> set col_lists \<Longrightarrow> find (\<lambda>cs. final_query cs = final_query cols) col_lists = Some cols"
  using find_all_final_query by (simp add: list_all_iff)

lemma final_query_not_fixed:
  "final_query cols \<noteq> select_text" "final_query cols \<noteq> insert_text"
  by (simp_all add: final_query_def select_text_def insert_text_def)

section \<open>The update route\<close>

lemma keys_and_allowed_set:
  "distinct (keys_and_allowed kvs)" "set (keys_and_allowed kvs) = set (map fst kvs) \<inter> set allowed"
  by (auto simp: keys_and_allowed_def)

lemma updates_keys_set:
  "distinct (updates_keys w kvs)" "set (updates_keys w kvs) = set (map fst kvs) \<inter> set allowed"
  using keys_and_allowed_set[of kvs] by (auto simp: updates_keys_def Let_def)

lemma store_exec_update:
  assumes "cols \<in> set col_lists" and "length vals = length cols"
    and "list_all well_typed (zip cols vals)"
  shows "store_exec (final_query cols) (vals @ [JInt i]) rows sq =
     Inr (filter (\<lambda>r. rid r = i) (update_rows (zip cols vals) i rows),
          update_rows (zip cols vals) i rows, sq)"
  using assms
  by (simp add: store_exec_def final_query_not_fixed find_final_query Let_def)

lemma bind_params_length:
  "bind_params ups = Some vals \<Longrightarrow> length vals = length ups"
  by (induction ups arbitrary: vals) (auto split: if_splits option.splits)

lemma bind_params_typed:
  "bind_params ups = Some vals \<Longrightarrow> list_all well_typed (zip (map fst ups) vals)"
  by (induction ups arbitrary: vals) (auto split: if_splits option.splits)

lemma bind_params_none:
  "bind_params ups = None \<Longrightarrow> \<exists>v. (''price'', v) \<in> set ups \<and> py_int v = None"
  by (induction ups) (auto split: if_splits option.splits)

lemma update_rows_missing:
  "i \<notin> rid ` set rows \<Longrightarrow> update_rows sets i rows = rows"
  by (induction rows) (auto simp: update_rows_def)

lemma filter_missing:
  "i \<notin> rid ` set rows \<Longrightarrow> filter (\<lambda>r. rid r = i) rows = []"
  by (induction rows) auto

lemma update_product_ok:
  assumes "set (map fst kvs) \<inter> set allowed \<noteq> {}"
    and "bind_params (map (\<lambda>k. (k, dict_get kvs k)) (updates_keys w kvs)) = Some vals"
    and "idle (pools w Primary) \<noteq> []" and "faults w = []" and "txn (dbs w Primary) = None"
  shows "fst (update_product i (Some (JObj kvs)) w) =
     (case filter (\<lambda>r. rid r = int i)
             (update_rows (zip (updates_keys w kvs) vals) (int i) (table (dbs w Primary))) of
        [] \<Rightarrow> Reply 404 (error_json ''product not found'')
      | r # rest \<Rightarrow> Reply 200 (JObj [(''product'', product_json r)]))"
proof -
  let ?cols = "updates_keys w kvs"
  let ?ups = "map (\<lambda>k. (k, dict_get kvs k)) ?cols"
  have fst_ups: "map fst ?ups = ?cols" by (simp add: comp_def)
  have ne: "?cols \<noteq> []" and kvs: "kvs \<noteq> []"
    using assms(1) updates_keys_set(2)[of w kvs] by auto
  have mem: "?cols \<in> set col_lists"
    using ne updates_keys_set[of w kvs] by (intro col_lists_member) auto
  have len: "length vals = length ?cols"
    using bind_params_length[OF assms(2)] by simp
  have typed: "list_all well_typed (zip ?cols vals)"
    using bind_params_typed[OF assms(2)] by (simp only: fst_ups)
  let ?rows' = "update_rows (zip ?cols vals) (int i) (table (dbs w Primary))"
  have rq: "fst (run_query Primary (final_query ?cols) (vals @ [JInt (int i)]) True w)
      = Inr (Some (filter (\<lambda>r. rid r = int i) ?rows'))"
    by (rule run_query_fetch_ok(1)[OF assms(3,4,5) store_exec_update[OF mem len typed]])
  show ?thesis
    using kvs ne assms(2) rq
    by (cases "run_query Primary (final_query ?cols) (vals @ [JInt (int i)]) True w")
       (simp add: update_product_def Let_def comp_def split: list.splits)
qed

lemma world0_facts:
  "idle (pools world0 Primary) \<noteq> []" "idle (pools world0 Replica) \<noteq> []"
  "faults world0 = []" "txn (dbs world0 Primary) = None" "txn (dbs world0 Replica) = None"
  "table (dbs world0 Primary) = [pen]" "table (dbs world0 Replica) = [pen]"
  "seq (dbs world0 Primary) = 2"
  "set_iter world0 = canonical_iter"
  by (simp_all add: world0_def shop_def)

text \<open>
  Claim C7, as amended. An update whose body is an object with at least one key of the
  allow-list and a price, if there is one, that \<^verbatim>\<open>int()\<close> accepts, whose id is the id of no row,
  and whose statement runs without a fault, is answered with status 404; the committed
  table is as before, and the statement itself changes no row.
\<close>

theorem update_missing_id_not_found:
  assumes "int i \<notin> rid ` set (table (dbs w Primary))"
    and "set (map fst kvs) \<inter> set allowed \<noteq> {}"
    and "py_int (dict_get kvs ''price'') \<noteq> None \<or> ''price'' \<notin> set (map fst kvs)"
    and "idle (pools w Primary) \<noteq> []" and "faults w = []" and "txn (dbs w Primary) = None"
  shows "fst (update_product i (Some (JObj kvs)) w) = Reply 404 (error_json ''product not found'')
     \<and> table (dbs (snd (update_product i (Some (JObj kvs)) w)) Primary) = table (dbs w Primary)
     \<and> update_rows sets (int i) (table (dbs w Primary)) = table (dbs w Primary)"
proof -
  let ?ups = "map (\<lambda>k. (k, dict_get kvs k)) (updates_keys w kvs)"
  have "bind_params ?ups \<noteq> None"
  proof
    assume "bind_params ?ups = None"
    from bind_params_none[OF this] obtain v where "(''price'', v) \<in> set ?ups" "py_int v = None"
      by blast
    then have "''price'' \<in> set (updates_keys w kvs)" "py_int (dict_get kvs ''price'') = None"
      by auto
    with assms(3) updates_keys_set(2)[of w kvs] show False by auto
  qed
  then obtain vals where vals: "bind_params ?ups = Some vals" by blast
  have "fst (update_product i (Some (JObj kvs)) w) = Reply 404 (error_json ''product not found'')"
    using update_product_ok[OF assms(2) vals assms(4,5,6), of i] assms(1)
    by (simp add: update_rows_missing filter_missing)
  moreover have "table (dbs (snd (update_product i (Some (JObj kvs)) w)) Primary)
      = table (dbs w Primary)"
    using update_product_confined[of i "Some (JObj kvs)" w
        "fst (update_product i (Some (JObj kvs)) w)" "snd (update_product i (Some (JObj kvs)) w)"]
    by (auto simp: confined_def)
  moreover have "update_rows sets (int i) (table (dbs w Primary)) = table (dbs w Primary)"
    using assms(1) by (rule update_rows_missing)
  ultimately show ?thesis by blast
qed

theorem update_missing_id_not_found_witness:
  "int 9 \<notin> rid ` set (table (dbs world0 Primary))
   \<and> set (map fst [(''price'', JInt 7), (''color'', JStr ''red'')]) \<inter> set allowed \<noteq> {}
   \<and> py_int (dict_get [(''price'', JInt 7), (''color'', JStr ''red'')] ''price'') = Some 7
   \<and> fst (update_product 9 price_body world0) = Reply 404 (error_json ''product not found'')
   \<and> table (dbs (snd (update_product 9 price_body world0)) Primary) = [pen]"
proof -
  have 1: "int 9 \<notin> rid ` set (table (dbs world0 Primary))"
    by (simp add: world0_facts pen_def)
  have 2: "set (map fst [(''price'', JInt 7), (''color'', JStr ''red'')]) \<inter> set allowed \<noteq> {}"
    by (simp add: allowed_def)
  have 3: "py_int (dict_get [(''price'', JInt 7), (''color'', JStr ''red'')] ''price'') = Some 7"
    by (simp add: dict_get_def)
  from update_missing_id_not_found[OF 1 2 _ world0_facts(1,3,4), of "[]"] 3
  have "fst (update_product 9 price_body world0) = Reply 404 (error_json ''product not found'')
     \<and> table (dbs (snd (update_product 9 price_body world0)) Primary) = [pen]"
    by (simp add: price_body_def world0_facts)
  with 1 2 3 show ?thesis by blast
qed

lemma missing_id_bad_body:
  "fst (update_product 9 colour_body world0)
       = Reply 400 (error_json ''no updatable fields provided'')"
  "fst (update_product 9 bad_price_body world0) = Reply 400 (error_json ''price must be integer'')"
  by (simp_all add: update_product_def colour_body_def bad_price_body_def eval_defs int_defs)

lemma missing_id_fault:
  "fst (update_product 9 price_body failing)
       = Reply 500 (error_detail ''failed to update'' (DbError OnExecute ''connection reset''))"
  by (simp add: update_product_def price_body_def failing_def eval_defs)

text \<open>
  Claim C7 as stated fails. The checks of the body come before the statement: an update of
  an id that no row has is answered with 400 when the body has unknown keys only or a
  price that \<^verbatim>\<open>int()\<close> rejects, and with 500 when the statement fails.
\<close>

theorem update_missing_id_counterexample:
  "int 9 \<notin> rid ` set (table (dbs world0 Primary))
   \<and> table (dbs failing Primary) = table (dbs world0 Primary)
   \<and> fst (update_product 9 colour_body world0)
       = Reply 400 (error_json ''no updatable fields provided'')
   \<and> fst (update_product 9 bad_price_body world0) = Reply 400 (error_json ''price must be integer'')
   \<and> fst (update_product 9 price_body failing)
       = Reply 500 (error_detail ''failed to update'' (DbError OnExecute ''connection reset''))"
proof -
  have "int 9 \<notin> rid ` set (table (dbs world0 Primary))"
    by (simp add: world0_facts pen_def)
  moreover have "table (dbs failing Primary) = table (dbs world0 Primary)"
    by (simp add: failing_def)
  ultimately show ?thesis using missing_id_bad_body missing_id_fault by blast
qed

text \<open>
  Claim C5 against the code. With \<^verbatim>\<open>fetch=True\<close> the executor returns the rows before it
  reaches \<^verbatim>\<open>conn.commit()\<close>, and the update route always passes \<^verbatim>\<open>fetch=True\<close>. The response
  shows the row with the new price, yet no commit was made and the committed row still has
  the old price once the connection is back in the pool.
\<close>

theorem update_is_not_committed:
  "fst (dispatch patch_price world0)
       = Reply 200 (JObj [(''product'', product_json (pen\<lparr>rprice := 7\<rparr>))])
   \<and> table (dbs world0 Primary) = [pen]
   \<and> table (dbs (snd (dispatch patch_price world0)) Primary) = [pen]
   \<and> rprice pen = 5
   \<and> filter is_commit (new_events world0 (snd (dispatch patch_price world0))) = []"
  by (simp add: dispatch_def patch_price_def update_product_def new_price_def eval_defs)

section \<open>The authorization gate is not applied\<close>

lemma admin_required_gate:
  "admin_required f hs w = (Reply 401 (error_json ''unauthorized''), w) \<or> admin_required f hs w = f w"
  by (simp add: admin_required_def Let_def)

lemma admin_required_no_headers:
  "x_admin_token hs = None \<Longrightarrow> authorization hs = None \<Longrightarrow>
     admin_required f hs w = (Reply 401 (error_json ''unauthorized''), w)"
  by (simp add: admin_required_def Let_def startswith_def)

text \<open>
  Claim C2 against the code. \<^verbatim>\<open>admin_required\<close> answers a request without a token with 401
  and does not call the wrapped function, but neither \<^verbatim>\<open>create_product\<close> nor
  \<^verbatim>\<open>update_product\<close> is wrapped by it: a create and an update without any token are served
  and their statements run on the primary pool.
\<close>

theorem mutations_served_without_token:
  "hdrs post_ink = no_headers \<and> hdrs patch_price = no_headers
   \<and> fst (dispatch post_ink world0) = Reply 201 (JObj [(''product'', product_json ink)])
   \<and> statements (new_events world0 (snd (dispatch post_ink world0)))
       = [(insert_text, [JStr ''ink'', JInt 7, JNull])]
   \<and> fst (dispatch patch_price world0)
       = Reply 200 (JObj [(''product'', product_json (pen\<lparr>rprice := 7\<rparr>))])
   \<and> statements (new_events world0 (snd (dispatch patch_price world0)))
       = [(final_query [''price''], [JInt 7, JInt 1])]
   \<and> admin_required (create_product ink_body) no_headers world0
       = (Reply 401 (error_json ''unauthorized''), world0)"
  by (simp add: dispatch_def post_ink_def patch_price_def create_product_def update_product_def
      ink_body_def new_price_def ink_def no_headers_def admin_required_def startswith_def
      eval_defs int_defs)

section \<open>Paging\<close>

lemma world1_facts:
  "idle (pools world1 Replica) \<noteq> []" "faults world1 = []" "txn (dbs world1 Replica) = None"
  "table (dbs world1 Replica) = [nib, pen, cap]"
  by (simp_all add: world1_def world0_def stock_def)

lemma sample_args:
  "arg_int (Some ''2'') 100 = Some 2" "arg_int (Some '' 1 '') 0 = Some 1"
  "arg_int (Some ''two'') 100 = None" "arg_int (Some [CHR 0x1F, CHR ''2'']) 100 = None"
  by (simp_all add: arg_int_def int_defs)

lemma sample_page:
  "take (nat 2) (drop (nat 1) (sort_key rid [nib, pen, cap])) = [cap, nib]"
  by (simp add: nib_def pen_def cap_def)

lemma default_page:
  "take (nat 100) (drop (nat 0) (sort_key rid [nib, pen, cap])) = [pen, cap, nib]"
  by (simp add: nib_def pen_def cap_def)

lemma product_json_fun:
  "product_json = (\<lambda>r. JObj [(''product_id'', JInt (rid r)), (''product_name'', rname r),
        (''price'', JInt (rprice r)), (''product_image_url'', rimage r)])"
  by (rule ext) (simp add: product_json_def)

text \<open>
  Claim C8. \<^verbatim>\<open>limit\<close> and \<^verbatim>\<open>offset\<close> are optional and stand for 100 and 0 when absent; a
  value that \<^verbatim>\<open>int()\<close> rejects gives status 400 with the state untouched. A response with
  status 200 carries, for each row of the page, its id, name, price and image; the page is
  the rows of the replica's table in ascending order of id, without the first \<open>offset\<close>
  and cut after \<open>limit\<close>. With both values read, not negative, and a store that does not
  fail, the response is that page with status 200.
\<close>

theorem get_products_page:
  "(arg_int la 100 = None \<or> arg_int oa 0 = None \<longrightarrow>
      get_products la oa w = (Reply 400 (error_json ''limit/offset must be integers''), w))
   \<and> (get_products la oa w = (Reply 200 b, w') \<and> txn (dbs w Replica) = None \<longrightarrow>
      (\<exists>l off. arg_int la 100 = Some l \<and> arg_int oa 0 = Some off \<and> 0 \<le> l \<and> 0 \<le> off
         \<and> b = JObj [(''products'', JArr (map
                (\<lambda>r. JObj [(''product_id'', JInt (rid r)), (''product_name'', rname r),
                           (''price'', JInt (rprice r)), (''product_image_url'', rimage r)])
                (take (nat l) (drop (nat off) (sort_key rid (table (dbs w Replica)))))))]))
   \<and> (arg_int la 100 = Some l \<and> arg_int oa 0 = Some off \<and> 0 \<le> l \<and> 0 \<le> off
       \<and> idle (pools w Replica) \<noteq> [] \<and> faults w = [] \<and> txn (dbs w Replica) = None \<longrightarrow>
      fst (get_products la oa w) = Reply 200 (JObj [(''products'', JArr (map
                (\<lambda>r. JObj [(''product_id'', JInt (rid r)), (''product_name'', rname r),
                           (''price'', JInt (rprice r)), (''product_image_url'', rimage r)])
                (take (nat l) (drop (nat off) (sort_key rid (table (dbs w Replica)))))))]))
   \<and> sorted (map rid (take (nat l) (drop (nat off) (sort_key rid (rows :: row list)))))
   \<and> arg_int None 100 = Some 100 \<and> arg_int None 0 = Some 0
   \<and> arg_int (Some s) d = int_of_str s"
proof (intro conjI impI)
  assume "arg_int la 100 = None \<or> arg_int oa 0 = None"
  then show "get_products la oa w = (Reply 400 (error_json ''limit/offset must be integers''), w)"
    by (rule get_products_bad_args)
next
  assume "get_products la oa w = (Reply 200 b, w') \<and> txn (dbs w Replica) = None"
  then show "\<exists>l off. arg_int la 100 = Some l \<and> arg_int oa 0 = Some off \<and> 0 \<le> l \<and> 0 \<le> off
         \<and> b = JObj [(''products'', JArr (map
                (\<lambda>r. JObj [(''product_id'', JInt (rid r)), (''product_name'', rname r),
                           (''price'', JInt (rprice r)), (''product_image_url'', rimage r)])
                (take (nat l) (drop (nat off) (sort_key rid (table (dbs w Replica)))))))]"
    using get_products_200[of la oa w b w'] by (simp add: page_def product_json_fun)
next
  assume "arg_int la 100 = Some l \<and> arg_int oa 0 = Some off \<and> 0 \<le> l \<and> 0 \<le> off
       \<and> idle (pools w Replica) \<noteq> [] \<and> faults w = [] \<and> txn (dbs w Replica) = None"
  then show "fst (get_products la oa w) = Reply 200 (JObj [(''products'', JArr (map
                (\<lambda>r. JObj [(''product_id'', JInt (rid r)), (''product_name'', rname r),
                           (''price'', JInt (rprice r)), (''product_image_url'', rimage r)])
                (take (nat l) (drop (nat off) (sort_key rid (table (dbs w Replica)))))))])"
    using get_products_ok[of la l oa off w] by (simp add: page_def product_json_fun)
next
  show "sorted (map rid (take (nat l) (drop (nat off) (sort_key rid (rows :: row list)))))"
    using sorted_page[of l off rows] by (simp add: page_def)
qed (simp_all add: arg_int_def)

theorem get_products_page_witness:
  "get_products (Some ''two'') None world1
       = (Reply 400 (error_json ''limit/offset must be integers''), world1)
   \<and> get_products (Some [CHR 0x1F, CHR ''2'']) None world1
       = (Reply 400 (error_json ''limit/offset must be integers''), world1)
   \<and> fst (get_products (Some ''2'') (Some '' 1 '') world1)
       = Reply 200 (JObj [(''products'', JArr
           [JObj [(''product_id'', JInt 2), (''product_name'', JStr ''cap''),
                  (''price'', JInt 1), (''product_image_url'', JNull)],
            JObj [(''product_id'', JInt 3), (''product_name'', JStr ''nib''),
                  (''price'', JInt 2), (''product_image_url'', JStr ''http://img/nib.png'')]])])
   \<and> fst (get_products None None world1)
       = Reply 200 (JObj [(''products'', JArr
           [JObj [(''product_id'', JInt 1), (''product_name'', JStr ''pen''),
                  (''price'', JInt 5), (''product_image_url'', JNull)],
            JObj [(''product_id'', JInt 2), (''product_name'', JStr ''cap''),
                  (''price'', JInt 1), (''product_image_url'', JNull)],
            JObj [(''product_id'', JInt 3), (''product_name'', JStr ''nib''),
                  (''price'', JInt 2), (''product_image_url'', JStr ''http://img/nib.png'')]])])"
proof -
  have a: "get_products (Some ''two'') None world1
       = (Reply 400 (error_json ''limit/offset must be integers''), world1)"
    using get_products_page[of "Some ''two''" None world1] sample_args(3) by blast
  have a': "get_products (Some [CHR 0x1F, CHR ''2'']) None world1
       = (Reply 400 (error_json ''limit/offset must be integers''), world1)"
    using get_products_page[of "Some [CHR 0x1F, CHR ''2'']" None world1] sample_args(4) by blast
  have b: "fst (get_products (Some ''2'') (Some '' 1 '') world1)
       = Reply 200 (JObj [(''products'', JArr
           [JObj [(''product_id'', JInt 2), (''product_name'', JStr ''cap''),
                  (''price'', JInt 1), (''product_image_url'', JNull)],
            JObj [(''product_id'', JInt 3), (''product_name'', JStr ''nib''),
                  (''price'', JInt 2), (''product_image_url'', JStr ''http://img/nib.png'')]])])"
  proof -
    note page = get_products_page[where la="Some ''2''" and oa="Some '' 1 ''" and w=world1
        and l=2 and off=1, THEN conjunct2, THEN conjunct2, THEN conjunct1, rule_format]
    have "fst (get_products (Some ''2'') (Some '' 1 '') world1)
       = Reply 200 (JObj [(''products'', JArr (map
           (\<lambda>r. JObj [(''product_id'', JInt (rid r)), (''product_name'', rname r),
                      (''price'', JInt (rprice r)), (''product_image_url'', rimage r)])
           (take (nat 2) (drop (nat 1) (sort_key rid (table (dbs world1 Replica)))))))])"
      by (rule page) (simp add: sample_args world1_facts)
    then have "fst (get_products (Some ''2'') (Some '' 1 '') world1)
       = Reply 200 (JObj [(''products'', JArr (map
           (\<lambda>r. JObj [(''product_id'', JInt (rid r)), (''product_name'', rname r),
                      (''price'', JInt (rprice r)), (''product_image_url'', rimage r)])
           [cap, nib]))])"
      by (simp only: world1_facts(4) sample_page)
    then show ?thesis by (simp add: cap_def nib_def)
  qed
  have c: "fst (get_products None None world1)
       = Reply 200 (JObj [(''products'', JArr
           [JObj [(''product_id'', JInt 1), (''product_name'', JStr ''pen''),
                  (''price'', JInt 5), (''product_image_url'', JNull)],
            JObj [(''product_id'', JInt 2), (''product_name'', JStr ''cap''),
                  (''price'', JInt 1), (''product_image_url'', JNull)],
            JObj [(''product_id'', JInt 3), (''product_name'', JStr ''nib''),
                  (''price'', JInt 2), (''product_image_url'', JStr ''http://img/nib.png'')]])])"
  proof -
    note page = get_products_page[where la=None and oa=None and w=world1
        and l=100 and off=0, THEN conjunct2, THEN conjunct2, THEN conjunct1, rule_format]
    have "fst (get_products None None world1)
       = Reply 200 (JObj [(''products'', JArr (map
           (\<lambda>r. JObj [(''product_id'', JInt (rid r)), (''product_name'', rname r),
                      (''price'', JInt (rprice r)), (''product_image_url'', rimage r)])
           (take (nat 100) (drop (nat 0) (sort_key rid (table (dbs world1 Replica)))))))])"
      by (rule page) (simp add: arg_int_def world1_facts)
    then have "fst (get_products None None world1)
       = Reply 200 (JObj [(''products'', JArr (map
           (\<lambda>r. JObj [(''product_id'', JInt (rid r)), (''product_name'', rname r),
                      (''price'', JInt (rprice r)), (''product_image_url'', rimage r)])
           [pen, cap, nib]))])"
      by (simp only: world1_facts(4) default_page)
    then show ?thesis by (simp add: cap_def nib_def pen_def)
  qed
  show ?thesis using a a' b c by blast
qed

section \<open>The create route\<close>

lemma store_exec_insert:
  "store_exec insert_text [n, JInt p, i] rows sq =
     Inr ([\<lparr>rid = sq, rname = n, rprice = p, rimage = i\<rparr>],
          rows @ [\<lparr>rid = sq, rname = n, rprice = p, rimage = i\<rparr>], sq + 1)"
proof -
  have "insert_text \<noteq> select_text" by (simp add: insert_text_def select_text_def)
  then show ?thesis by (simp add: store_exec_def Let_def)
qed

lemma create_product_ok:
  assumes "map_of kvs ''product_name'' = Some (JStr n)" and "n \<noteq> []"
    and "py_int (dict_get kvs ''price'') = Some p"
    and "idle (pools w Primary) \<noteq> []" and "faults w = []" and "txn (dbs w Primary) = None"
  shows "fst (create_product (Some (JObj kvs)) w) =
      Reply 201 (JObj [(''product'', product_json
        \<lparr>rid = seq (dbs w Primary), rname = JStr n, rprice = p,
         rimage = dict_get kvs ''product_image_url''\<rparr>)])"
    and "seq (dbs (snd (create_product (Some (JObj kvs)) w)) Primary) = seq (dbs w Primary) + 1"
proof -
  let ?ps = "[JStr n, JInt p, dict_get kvs ''product_image_url'']"
  let ?row = "\<lparr>rid = seq (dbs w Primary), rname = JStr n, rprice = p,
         rimage = dict_get kvs ''product_image_url''\<rparr>"
  have kvs: "kvs \<noteq> []" using assms(1) by auto
  have name: "dict_get kvs ''product_name'' = JStr n" using assms(1) by (simp add: dict_get_def)
  note se = store_exec_insert[of "JStr n" p "dict_get kvs ''product_image_url''"
      "table (dbs w Primary)" "seq (dbs w Primary)"]
  have rq1: "fst (run_query Primary insert_text ?ps True w) = Inr (Some [?row])"
    by (rule run_query_fetch_ok(1)[OF assms(4,5,6) se])
  have rq2: "seq (dbs (snd (run_query Primary insert_text ?ps True w)) Primary)
      = seq (dbs w Primary) + 1"
    by (rule run_query_fetch_ok(2)[OF assms(4,5,6) se])
  show "fst (create_product (Some (JObj kvs)) w) = Reply 201 (JObj [(''product'', product_json ?row)])"
    using kvs name assms(2,3) rq1
    by (cases "run_query Primary insert_text ?ps True w")
       (simp add: create_product_def Let_def)
  show "seq (dbs (snd (create_product (Some (JObj kvs)) w)) Primary) = seq (dbs w Primary) + 1"
    using kvs name assms(2,3) rq1 rq2
    by (cases "run_query Primary insert_text ?ps True w")
       (simp add: create_product_def Let_def)
qed

lemma store_ok_fresh:
  "store_ok s \<Longrightarrow> 0 < seq s \<and> seq s \<notin> rid ` set (table s)"
  by (auto simp: store_ok_def list_all_iff)

lemma store_ok_step:
  "store_ok s \<Longrightarrow> table s' = table s \<Longrightarrow> seq s' = seq s + 1 \<Longrightarrow> store_ok s'"
  by (auto simp: store_ok_def list_all_iff)

text \<open>
  What holds of the create route: for a valid payload on which the insert runs without a
  fault, the response has status 201 and carries the name, the converted price, the image
  and the id the primary's sequence gave, a positive integer that no row of the primary's
  table has and smaller than every id given later.
\<close>

lemma create_product_fresh_id:
  assumes "map_of kvs ''product_name'' = Some (JStr n)" and "n \<noteq> []"
    and "py_int (dict_get kvs ''price'') = Some p"
    and "store_ok (dbs w Primary)"
    and "idle (pools w Primary) \<noteq> []" and "faults w = []" and "txn (dbs w Primary) = None"
  shows "fst (create_product (Some (JObj kvs)) w) =
      Reply 201 (JObj [(''product'', product_json
        \<lparr>rid = seq (dbs w Primary), rname = JStr n, rprice = p,
         rimage = dict_get kvs ''product_image_url''\<rparr>)])
    \<and> 0 < seq (dbs w Primary)
    \<and> seq (dbs w Primary) \<notin> rid ` set (table (dbs w Primary))
    \<and> seq (dbs (snd (create_product (Some (JObj kvs)) w)) Primary) = seq (dbs w Primary) + 1
    \<and> store_ok (dbs (snd (create_product (Some (JObj kvs)) w)) Primary)"
proof -
  let ?w' = "snd (create_product (Some (JObj kvs)) w)"
  note ok = create_product_ok[OF assms(1,2,3,5,6,7)]
  obtain ps where conf: "confined Primary {(insert_text, ps)} w ?w'"
    using create_product_confined[of "Some (JObj kvs)" w
        "fst (create_product (Some (JObj kvs)) w)" ?w'] by auto
  then have tab: "table (dbs ?w' Primary) = table (dbs w Primary)"
    by (simp add: confined_def)
  have inv: "store_ok (dbs ?w' Primary)"
    by (rule store_ok_step[OF assms(4) tab ok(2)])
  show ?thesis
    using ok store_ok_fresh[OF assms(4)] inv by blast
qed

lemma create_reply:
  "fst (create_product ink_body world0)
     = Reply 201 (JObj [(''product'', JObj [(''product_id'', JInt 2), (''product_name'', JStr ''ink''),
         (''price'', JInt 7), (''product_image_url'', JNull)])])"
  by (simp add: create_product_def ink_body_def eval_defs int_defs)

lemma create_leaves_table:
  "table (dbs (snd (create_product ink_body world0)) Primary) = [pen]"
  "filter is_commit (new_events world0 (snd (create_product ink_body world0))) = []"
  by (simp_all add: create_product_def ink_body_def eval_defs int_defs)

lemma list_after_create:
  "fst (get_products None None (replicate_now (snd (create_product ink_body world0))))
     = Reply 200 (JObj [(''products'', JArr [JObj [(''product_id'', JInt 1),
         (''product_name'', JStr ''pen''), (''price'', JInt 5), (''product_image_url'', JNull)]])])"
  by (simp add: get_products_def create_product_def ink_body_def replicate_now_def eval_defs
      int_defs)

text \<open>
  Claim C4 against the code. The create route passes \<^verbatim>\<open>fetch=True\<close>, so the executor
  returns the inserted row before it reaches \<^verbatim>\<open>conn.commit()\<close>. The response has status 201
  and shows the new row with a fresh id, yet no commit was made: the primary's committed
  table is as before, and a list that follows does not show the row even when the replica
  has taken over everything the primary committed.
\<close>

theorem create_is_not_committed:
  "fst (create_product ink_body world0)
     = Reply 201 (JObj [(''product'', JObj [(''product_id'', JInt 2), (''product_name'', JStr ''ink''),
         (''price'', JInt 7), (''product_image_url'', JNull)])])
   \<and> filter is_commit (new_events world0 (snd (create_product ink_body world0))) = []
   \<and> table (dbs (snd (create_product ink_body world0)) Primary) = [pen]
   \<and> rid pen = 1
   \<and> fst (get_products None None (replicate_now (snd (create_product ink_body world0))))
     = Reply 200 (JObj [(''products'', JArr [JObj [(''product_id'', JInt 1),
         (''product_name'', JStr ''pen''), (''price'', JInt 5), (''product_image_url'', JNull)]])])"
proof -
  have "rid pen = 1" by (simp add: pen_def)
  then show ?thesis
    using create_reply create_leaves_table list_after_create by blast
qed

section \<open>Statement texts do not depend on the values\<close>

lemma placeholders_fixed:
  "placeholders select_text = 2" "placeholders insert_text = 3"
  by (simp_all add: select_text_def insert_text_def)

lemma placeholders_all_final_query:
  "list_all (\<lambda>cols. placeholders (final_query cols) = Suc (length cols)) col_lists"
  by (simp add: col_lists_def final_query_def set_texts_def)

lemma placeholders_final_query:
  "cols \<noteq> [] \<Longrightarrow> distinct cols \<Longrightarrow> set cols \<subseteq> set allowed \<Longrightarrow>
     placeholders (final_query cols) = Suc (length cols)"
  using placeholders_all_final_query col_lists_member[of cols] by (simp add: list_all_iff)

lemma get_products_statement:
  assumes "get_products la oa w = (rep, w')"
  shows "\<exists>l off. set (statements (new_events w w')) \<subseteq> {(select_text, [JInt l, JInt off])}"
  using get_products_confined[OF assms] by (auto simp: confined_def)

lemma create_product_statement:
  assumes "create_product b w = (rep, w')"
  shows "\<exists>n p img. set (statements (new_events w w')) \<subseteq> {(insert_text, [n, JInt p, img])}"
proof -
  have stay: ?thesis if "w' = w"
    using that by (simp add: new_events_def)
  show ?thesis
  proof (cases "\<exists>kvs. b = Some (JObj kvs) \<and> kvs \<noteq> []")
    case False
    have "w' = w"
    proof (cases b)
      case None
      with assms show ?thesis by (simp add: create_product_def)
    next
      case (Some d)
      with assms False show ?thesis
        by (cases d) (auto simp: create_product_def split: if_splits)
    qed
    then show ?thesis by (rule stay)
  next
    case True
    then obtain kvs where b: "b = Some (JObj kvs)" and kvs: "kvs \<noteq> []" by blast
    let ?name = "dict_get kvs ''product_name''"
    let ?image = "dict_get kvs ''product_image_url''"
    show ?thesis
    proof (cases "truthy ?name \<and> isinstance_str ?name")
      case False
      with assms b kvs have "w' = w" by (auto simp: create_product_def Let_def)
      then show ?thesis by (rule stay)
    next
      case name: True
      show ?thesis
      proof (cases "py_int (dict_get kvs ''price'')")
        case None
        with assms b kvs name have "w' = w" by (auto simp: create_product_def Let_def)
        then show ?thesis by (rule stay)
      next
        case (Some p)
        obtain res w1 where rq:
          "run_query Primary insert_text [?name, JInt p, ?image] True w = (res, w1)"
          by (cases "run_query Primary insert_text [?name, JInt p, ?image] True w")
        with assms b kvs name Some have "w' = w1"
          by (auto simp: create_product_def Let_def
              split: sum.splits option.splits list.splits)
        with confined_run_query[OF rq]
        have "set (statements (new_events w w')) \<subseteq> {(insert_text, [?name, JInt p, ?image])}"
          by (simp add: confined_def)
        then show ?thesis by blast
      qed
    qed
  qed
qed

lemma update_product_statement:
  assumes "update_product i (Some (JObj kvs)) w = (rep, w')"
  shows "\<exists>vals. set (statements (new_events w w'))
            \<subseteq> {(final_query (updates_keys w kvs), vals @ [JInt (int i)])}
          \<and> length vals = length (updates_keys w kvs)"
proof -
  let ?cols = "updates_keys w kvs"
  let ?ups = "map (\<lambda>k. (k, dict_get kvs k)) ?cols"
  have stay: ?thesis if "w' = w"
    using that
    by (intro exI[of _ "replicate (length ?cols) JNull"]) (simp add: new_events_def)
  show ?thesis
  proof (cases "kvs = []")
    case True
    with assms have "w' = w" by (simp add: update_product_def)
    then show ?thesis by (rule stay)
  next
    case kvs: False
    show ?thesis
    proof (cases "?cols = []")
      case True
      with assms kvs have "w' = w" by (simp add: update_product_def Let_def)
      then show ?thesis by (rule stay)
    next
      case cols: False
      show ?thesis
      proof (cases "bind_params ?ups")
        case None
        with assms kvs cols have "w' = w" by (simp add: update_product_def Let_def)
        then show ?thesis by (rule stay)
      next
        case (Some vals)
        obtain res w1 where rq:
          "run_query Primary (final_query ?cols) (vals @ [JInt (int i)]) True w = (res, w1)"
          by (cases "run_query Primary (final_query ?cols) (vals @ [JInt (int i)]) True w")
        with assms kvs cols Some have "w' = w1"
          by (auto simp: update_product_def Let_def comp_def
              split: sum.splits option.splits list.splits)
        with confined_run_query[OF rq]
        have "set (statements (new_events w w'))
            \<subseteq> {(final_query ?cols, vals @ [JInt (int i)])}"
          by (simp add: confined_def)
        moreover have "length vals = length ?cols"
          using bind_params_length[OF Some] by simp
        ultimately show ?thesis by blast
      qed
    qed
  qed
qed

lemma updates_keys_cong:
  "map fst kvs' = map fst kvs \<Longrightarrow> set_iter w' = set_iter w \<Longrightarrow>
     updates_keys w' kvs' = updates_keys w kvs"
  by (simp add: updates_keys_def keys_and_allowed_def)

text \<open>
  Claim C10, as amended. The text handed to the executor is the fixed page query for the
  list route, the fixed insert for the create route, and for the update route the text
  built from the iterated column names alone: these are exactly the keys of the body that
  are in the allow-list, each once. The values travel as parameters, one for each
  placeholder of the text, with the id last. Two updates whose bodies have the same keys
  in the same order run the same text whatever their values are; two updates that select
  the same field set run texts over the same columns, in an order the runtime chooses.
\<close>

theorem statement_text_fixed:
  "(get_products la oa w1 = (rep1, w1') \<longrightarrow>
      (\<exists>l off. set (statements (new_events w1 w1')) \<subseteq> {(select_text, [JInt l, JInt off])}))
   \<and> (create_product b2 w2 = (rep2, w2') \<longrightarrow>
      (\<exists>n p img. set (statements (new_events w2 w2')) \<subseteq> {(insert_text, [n, JInt p, img])}))
   \<and> (update_product i (Some (JObj kvs)) w3 = (rep3, w3') \<longrightarrow>
      (\<exists>cols vals. set (statements (new_events w3 w3'))
            \<subseteq> {(final_query cols, vals @ [JInt (int i)])}
          \<and> length vals = length cols
          \<and> distinct cols
          \<and> set cols = set (map fst kvs) \<inter> set allowed
          \<and> (cols = [] \<or> placeholders (final_query cols) = length (vals @ [JInt (int i)]))))
   \<and> (update_product i (Some (JObj kvs)) w3 = (rep3, w3')
       \<and> update_product j (Some (JObj kvs')) w4 = (rep4, w4')
       \<and> map fst kvs' = map fst kvs \<and> set_iter w4 = set_iter w3 \<longrightarrow>
      (\<exists>cols. fst ` set (statements (new_events w3 w3'))
                \<union> fst ` set (statements (new_events w4 w4')) \<subseteq> {final_query cols}))
   \<and> placeholders select_text = 2 \<and> placeholders insert_text = 3"
proof (intro conjI impI)
  assume "get_products la oa w1 = (rep1, w1')"
  then show "\<exists>l off. set (statements (new_events w1 w1')) \<subseteq> {(select_text, [JInt l, JInt off])}"
    by (rule get_products_statement)
next
  assume "create_product b2 w2 = (rep2, w2')"
  then show "\<exists>n p img. set (statements (new_events w2 w2')) \<subseteq> {(insert_text, [n, JInt p, img])}"
    by (rule create_product_statement)
next
  assume a: "update_product i (Some (JObj kvs)) w3 = (rep3, w3')"
  let ?cols = "updates_keys w3 kvs"
  note d = updates_keys_set(1)[of w3 kvs] and s = updates_keys_set(2)[of w3 kvs]
  from update_product_statement[OF a] obtain vals where
    v: "set (statements (new_events w3 w3')) \<subseteq> {(final_query ?cols, vals @ [JInt (int i)])}"
       "length vals = length ?cols"
    by blast
  have "?cols = [] \<or> placeholders (final_query ?cols) = length (vals @ [JInt (int i)])"
    using placeholders_final_query[OF _ d] s v(2) by auto
  with v d s show "\<exists>cols vals. set (statements (new_events w3 w3'))
            \<subseteq> {(final_query cols, vals @ [JInt (int i)])}
          \<and> length vals = length cols
          \<and> distinct cols
          \<and> set cols = set (map fst kvs) \<inter> set allowed
          \<and> (cols = [] \<or> placeholders (final_query cols) = length (vals @ [JInt (int i)]))"
    by blast
next
  assume a: "update_product i (Some (JObj kvs)) w3 = (rep3, w3')
       \<and> update_product j (Some (JObj kvs')) w4 = (rep4, w4')
       \<and> map fst kvs' = map fst kvs \<and> set_iter w4 = set_iter w3"
  then have same: "updates_keys w4 kvs' = updates_keys w3 kvs"
    by (intro updates_keys_cong) simp_all
  from a update_product_statement[of i kvs w3 rep3 w3'] obtain vals where
    "set (statements (new_events w3 w3'))
       \<subseteq> {(final_query (updates_keys w3 kvs), vals @ [JInt (int i)])}" by blast
  moreover from a update_product_statement[of j kvs' w4 rep4 w4'] same obtain vals' where
    "set (statements (new_events w4 w4'))
       \<subseteq> {(final_query (updates_keys w3 kvs), vals' @ [JInt (int j)])}" by auto
  ultimately have "fst ` set (statements (new_events w3 w3'))
        \<union> fst ` set (statements (new_events w4 w4'))
        \<subseteq> {final_query (updates_keys w3 kvs)}"
    by auto
  then show "\<exists>cols. fst ` set (statements (new_events w3 w3'))
                \<union> fst ` set (statements (new_events w4 w4')) \<subseteq> {final_query cols}"
    by blast
qed (simp_all add: placeholders_fixed)

lemma quill_statement:
  "statements (new_events world2 (snd (update_product 1 (Some (JObj quill_body)) world2)))
     = [(final_query [''price'', ''product_name''], [JInt 7, JStr ''quill'', JInt 1])]"
  by (simp add: update_product_def quill_body_def world2_def insertion_iter_def eval_defs)

lemma drop_statement:
  "statements (new_events world2 (snd (update_product 1 (Some (JObj drop_body)) world2)))
     = [(final_query [''price'', ''product_name''],
         [JInt 9, JStr ''x = 1; DROP TABLE products'', JInt 1])]"
  by (simp add: update_product_def drop_body_def world2_def insertion_iter_def eval_defs int_defs)

lemma hostile_statement:
  "statements (new_events world2 (snd (update_product 1 (Some (JObj hostile_body)) world2)))
     = [(final_query [''product_name'', ''price''],
         [JStr ''x = 1; DROP TABLE products'', JInt 9, JInt 1])]"
  by (simp add: update_product_def hostile_body_def world2_def insertion_iter_def eval_defs
      int_defs)

lemma same_keys: "map fst drop_body = map fst quill_body"
  by (simp add: drop_body_def quill_body_def)

theorem statement_text_fixed_witness:
  "map fst drop_body = map fst quill_body
   \<and> statements (new_events world2 (snd (update_product 1 (Some (JObj quill_body)) world2)))
       = [(final_query [''price'', ''product_name''], [JInt 7, JStr ''quill'', JInt 1])]
   \<and> statements (new_events world2 (snd (update_product 1 (Some (JObj drop_body)) world2)))
       = [(final_query [''price'', ''product_name''],
           [JInt 9, JStr ''x = 1; DROP TABLE products'', JInt 1])]
   \<and> (\<exists>cols. fst ` set (statements (new_events world2
                  (snd (update_product 1 (Some (JObj quill_body)) world2))))
            \<union> fst ` set (statements (new_events world2
                  (snd (update_product 1 (Some (JObj drop_body)) world2))))
            \<subseteq> {final_query cols})
   \<and> placeholders (final_query [''price'', ''product_name'']) = 3"
proof -
  have 1: "update_product 1 (Some (JObj quill_body)) world2
      = (fst (update_product 1 (Some (JObj quill_body)) world2),
         snd (update_product 1 (Some (JObj quill_body)) world2))"
    and 2: "update_product 1 (Some (JObj drop_body)) world2
      = (fst (update_product 1 (Some (JObj drop_body)) world2),
         snd (update_product 1 (Some (JObj drop_body)) world2))"
    by (rule surjective_pairing)+
  note t = statement_text_fixed[where i=1 and kvs=quill_body and ?w3.0=world2
      and ?rep3.0="fst (update_product 1 (Some (JObj quill_body)) world2)"
      and ?w3'="snd (update_product 1 (Some (JObj quill_body)) world2)"
      and j=1 and kvs'=drop_body and ?w4.0=world2
      and ?rep4.0="fst (update_product 1 (Some (JObj drop_body)) world2)"
      and ?w4'="snd (update_product 1 (Some (JObj drop_body)) world2)"]
  from t 1 2 same_keys
  have "\<exists>cols. fst ` set (statements (new_events world2
                  (snd (update_product 1 (Some (JObj quill_body)) world2))))
            \<union> fst ` set (statements (new_events world2
                  (snd (update_product 1 (Some (JObj drop_body)) world2))))
            \<subseteq> {final_query cols}"
    by blast
  moreover have "placeholders (final_query [''price'', ''product_name'']) = 3"
    by (simp add: placeholders_final_query allowed_def)
  ultimately show ?thesis
    using same_keys quill_statement drop_statement by blast
qed

lemma texts_differ:
  "final_query [''price'', ''product_name''] \<noteq> final_query [''product_name'', ''price'']"
  by (simp add: final_query_def set_texts_def)

lemma same_field_set:
  "set (map fst quill_body) \<inter> set allowed = set (map fst hostile_body) \<inter> set allowed"
  by (auto simp: quill_body_def hostile_body_def allowed_def)

text \<open>
  Claim C10 as stated fails: the columns are written in the order in which the runtime
  iterates the key set, so two updates that select the same field set can run different
  texts. Here the runtime iterates in the order of the body's keys, as CPython does for
  two keys that fall into the same slot of the set.
\<close>

theorem same_fields_other_text_counterexample:
  "set (map fst quill_body) \<inter> set allowed = set (map fst hostile_body) \<inter> set allowed
   \<and> statements (new_events world2 (snd (update_product 1 (Some (JObj quill_body)) world2)))
       = [(final_query [''price'', ''product_name''], [JInt 7, JStr ''quill'', JInt 1])]
   \<and> statements (new_events world2 (snd (update_product 1 (Some (JObj hostile_body)) world2)))
       = [(final_query [''product_name'', ''price''],
           [JStr ''x = 1; DROP TABLE products'', JInt 9, JInt 1])]
   \<and> final_query [''price'', ''product_name''] \<noteq> final_query [''product_name'', ''price'']"
  using same_field_set quill_statement hostile_statement texts_differ by blast

section \<open>No route commits\<close>

text \<open>
  No route reaches \<^verbatim>\<open>conn.commit()\<close>: every call of the executor passes \<^verbatim>\<open>fetch=True\<close>, so
  no request changes a committed table.
\<close>

lemma no_route_commits:
  assumes "dispatch rq w = (rep, w')"
  shows "filter is_commit (new_events w w') = []
       \<and> table (dbs w' Primary) = table (dbs w Primary)
       \<and> table (dbs w' Replica) = table (dbs w Replica)"
proof (cases "route rq")
  case ListProducts
  with assms have "get_products (limit_arg rq) (offset_arg rq) w = (rep, w')"
    by (simp add: dispatch_def)
  from get_products_confined[OF this] show ?thesis by (auto simp: confined_def)
next
  case CreateProduct
  with assms have "create_product (body rq) w = (rep, w')" by (simp add: dispatch_def)
  from create_product_confined[OF this] show ?thesis by (auto simp: confined_def)
next
  case (UpdateProduct i)
  with assms have "update_product i (body rq) w = (rep, w')" by (simp add: dispatch_def)
  from update_product_confined[OF this] show ?thesis by (auto simp: confined_def)
next
  case Health
  with assms show ?thesis by (simp add: dispatch_def health_def new_events_def)
qed

end
